theory Spec2Isabelle
  imports Complex_Main "HOL-Library.AList" "HOL-Library.Sublist"
begin

section \<open>Shared JavaScript notions\<close>

text \<open>
  Values that the ArcGIS adapter copies around without looking inside them
  (\<open>dataCustodian\<close>, \<open>blacklist\<close>, the values of \<open>itemProperties\<close>), and the
  property values it assigns on the children it creates.
\<close>

datatype js_value =
    JUndefined
  | JNull
  | JBool bool
  | JNumber int
  | JString string
  | JArray "js_value list"
  | JObject "(string \<times> js_value) list"

text \<open>
  What a rejected promise or a \<open>throw\<close> carries. A \<open>TerriaError\<close> keeps its
  title and whether a \<open>sender\<close> was given; the HTML message text is not modelled.
\<close>

datatype js_error =
    TerriaError (title: string) (has_sender: bool)
  | TypeError string
  | TransportError string

text \<open>The settled state of a promise.\<close>

datatype 'a promise = Resolved 'a | Rejected js_error

text \<open>
  Case folding of the \<open>i\<close> flag of a regular expression without the \<open>u\<close> flag: a
  character is compared through its upper-case form, and a character outside ASCII is
  never identified with an ASCII one. Strings are lists of 8-bit characters here, so
  only \<open>a\<close>..\<open>z\<close> change.
\<close>

definition canonicalize :: "char \<Rightarrow> char" where
  "canonicalize c =
     (let n = (of_char c :: nat) in if 97 \<le> n \<and> n \<le> 122 then char_of (n - 32) else c)"

definition ci_equal :: "string \<Rightarrow> string \<Rightarrow> bool" where
  "ci_equal a b = (map canonicalize a = map canonicalize b)"


text \<open>\<open>String.prototype.indexOf\<close>: the first index where the needle starts, or -1.\<close>

fun indexOf_from :: "int \<Rightarrow> string \<Rightarrow> string \<Rightarrow> int" where
  "indexOf_from i needle [] = (if needle = [] then i else -1)"
| "indexOf_from i needle (c # cs) =
     (if prefix needle (c # cs) then i else indexOf_from (i + 1) needle cs)"

definition indexOf :: "string \<Rightarrow> string \<Rightarrow> int" where
  "indexOf s needle = indexOf_from 0 needle s"

text \<open>\<open>String.prototype.substring(start)\<close> with \<open>start \<ge> 0\<close>.\<close>

definition substring :: "string \<Rightarrow> nat \<Rightarrow> string" where
  "substring s start = drop start s"

text \<open>\<open>Array.prototype.indexOf\<close>.\<close>

fun array_indexOf_from :: "int \<Rightarrow> 'a list \<Rightarrow> 'a \<Rightarrow> int" where
  "array_indexOf_from i [] x = -1"
| "array_indexOf_from i (y # ys) x = (if y = x then i else array_indexOf_from (i + 1) ys x)"

definition array_indexOf :: "'a list \<Rightarrow> 'a \<Rightarrow> int" where
  "array_indexOf xs x = array_indexOf_from 0 xs x"

section \<open>ArcGisCatalogGroup\<close>

subsection \<open>Dispatch on the URL\<close>




subsection \<open>The group, the children it creates, the REST document\<close>

datatype ctor_kind =
    ArcGisCatalogGroup_ctor
  | ArcGisMapServerCatalogGroup_ctor
  | ArcGisFeatureServerCatalogGroup_ctor

text \<open>
  A child as the adapter leaves it: the constructor that made it and the properties
  assigned on it, in the order of their first assignment.
\<close>

record catalog_child =
  ctor :: ctor_kind
  props :: "(string \<times> js_value) list"

text \<open>
  The constructor of \<open>ArcGisCatalogGroup\<close> sets \<open>url = ''\<close> and leaves
  \<open>dataCustodian\<close>, \<open>blacklist\<close> and \<open>itemProperties\<close> undefined.
  \<open>items\<close> is the ordered list of children of the underlying \<open>CatalogGroup\<close>.
\<close>

record ArcGisCatalogGroup =
  url :: string
  dataCustodian :: js_value
  blacklist :: js_value
  itemProperties :: "(string \<times> js_value) list option"
  items :: "catalog_child list"

text \<open>One entry of \<open>services\<close> in the REST document: its \<open>name\<close> and \<open>type\<close>.\<close>

record service_json =
  service_name :: string
  service_type :: string

text \<open>
  The parsed response of \<open>loadJson\<close>. \<open>FalsyResponse\<close> is any value for which
  \<open>!serviceJson\<close> holds; \<open>folders\<close> and \<open>services\<close> are \<open>None\<close> when the
  document does not have them.
\<close>

datatype rest_response =
    FalsyResponse
  | RestDocument (folders: "string list option") (services: "service_json list option")

text \<open>
  The collaborators outside the repository: URI.js (\<open>new URI(u).segment(s).toString()\<close>,
  \<open>new URI(u).search('').toString()\<close>), \<open>proxyCatalogItemUrl\<close> and \<open>loadJson\<close>.
\<close>

record arcgis_env =
  uri_segment :: "string \<Rightarrow> string \<Rightarrow> string"
  uri_without_search :: "string \<Rightarrow> string"
  proxyCatalogItemUrl :: "ArcGisCatalogGroup \<Rightarrow> string \<Rightarrow> string \<Rightarrow> string"
  loadJson :: "string \<Rightarrow> rest_response promise"


subsection \<open>Naming the children\<close>

text \<open>
  \<open>/rest\/services\/(.*)/i.exec(url)\<close>: the leftmost place where \<open>rest/services/\<close>
  stands (without case), and what follows it up to the first line terminator, which
  \<open>.\<close> does not match.
\<close>

fun exec_after :: "string \<Rightarrow> string \<Rightarrow> string option" where
  "exec_after literal [] = (if literal = [] then Some [] else None)"
| "exec_after literal (c # cs) =
     (if length literal \<le> length (c # cs) \<and> ci_equal (take (length literal) (c # cs)) literal
      then Some (drop (length literal) (c # cs))
      else exec_after literal cs)"

definition line_terminator :: "char \<Rightarrow> bool" where
  "line_terminator c = (c = CHR 0x0A \<or> c = CHR 0x0D)"

definition getBasePath :: "ArcGisCatalogGroup \<Rightarrow> string" where
  "getBasePath catalogGroup =
     (case exec_after ''rest/services/'' (url catalogGroup) of
        Some rest \<Rightarrow> takeWhile (\<lambda>c. \<not> line_terminator c) rest
      | None \<Rightarrow> [])"

definition removePathFromName :: "string \<Rightarrow> string \<Rightarrow> string" where
  "removePathFromName basePath name =
     (if basePath = [] \<and> length basePath = 0 then name
      else let index = indexOf name basePath in
        if index = 0 then substring name (length basePath + 1) else name)"

text \<open>
  Modelled from the spec: \<open>Core/replaceUnderscores\<close> is not among the sources; the
  child-naming rule says that it "replaces underscores with spaces".
\<close>

definition replaceUnderscores :: "string \<Rightarrow> string" where
  "replaceUnderscores s = map (\<lambda>c. if c = CHR ''_'' then CHR '' '' else c) s"

subsection \<open>Creating the children\<close>

definition set_prop :: "string \<Rightarrow> js_value \<Rightarrow> catalog_child \<Rightarrow> catalog_child" where
  "set_prop k v child = child\<lparr>props := AList.update k v (props child)\<rparr>"

definition get_prop :: "catalog_child \<Rightarrow> string \<Rightarrow> js_value" where
  "get_prop child k = (case map_of (props child) k of Some v \<Rightarrow> v | None \<Rightarrow> JUndefined)"

definition new_ArcGisCatalogGroup :: catalog_child where
  "new_ArcGisCatalogGroup =
     \<lparr>ctor = ArcGisCatalogGroup_ctor,
      props = [(''url'', JString []), (''dataCustodian'', JUndefined),
               (''blacklist'', JUndefined), (''itemProperties'', JUndefined)]\<rparr>"

text \<open>
  The loop \<open>for (var propertyName in itemProperties) group[propertyName] = ...\<close> of
  \<open>createMapOrFeatureServer\<close>.
\<close>

fun assign_properties :: "(string \<times> js_value) list \<Rightarrow> catalog_child \<Rightarrow> catalog_child" where
  "assign_properties [] child = child"
| "assign_properties ((propertyName, v) # rest) child =
     assign_properties rest (set_prop propertyName v child)"

text \<open>
  Modelled from the spec: \<open>CatalogMember.updateFromJson\<close> is not among the sources;
  \<open>itemProperties\<close> is "inherited configuration applied to children created during
  load", so the call sets each property of the JSON on the child, as the loop of
  \<open>createMapOrFeatureServer\<close> does.
\<close>

definition updateFromJson :: "(string \<times> js_value) list \<Rightarrow> catalog_child \<Rightarrow> catalog_child" where
  "updateFromJson json child = assign_properties json child"

text \<open>
  Modelled from the spec: \<open>CatalogGroup.add\<close> is not among the sources; a group
  "owns an ordered set of child nodes, insertion order significant", so the new child
  goes to the end of \<open>items\<close>.
\<close>

definition add :: "catalog_child \<Rightarrow> ArcGisCatalogGroup \<Rightarrow> ArcGisCatalogGroup" where
  "add child catalogGroup = catalogGroup\<lparr>items := items catalogGroup @ [child]\<rparr>"

definition createGroup ::
  "arcgis_env \<Rightarrow> ArcGisCatalogGroup \<Rightarrow> string \<Rightarrow> string \<Rightarrow> catalog_child \<times> ArcGisCatalogGroup" where
  "createGroup env catalogGroup basePath folderJson =
     (let localName = removePathFromName basePath folderJson;
          g1 = set_prop ''name'' (JString (replaceUnderscores localName)) new_ArcGisCatalogGroup;
          g2 = set_prop ''url'' (JString (uri_segment env (url catalogGroup) localName)) g1;
          g3 = set_prop ''dataCustodian'' (dataCustodian catalogGroup) g2;
          g4 = set_prop ''blacklist'' (blacklist catalogGroup) g3;
          newGroup = (case itemProperties catalogGroup of
                        Some json \<Rightarrow> updateFromJson json g4
                      | None \<Rightarrow> g4)
      in (newGroup, add newGroup catalogGroup))"

definition validServerTypes :: "string list" where
  "validServerTypes = [''MapServer'', ''FeatureServer'']"

text \<open>\<open>None\<close> is the early \<open>return;\<close>: no child, the group untouched.\<close>

definition createMapOrFeatureServer ::
  "arcgis_env \<Rightarrow> ArcGisCatalogGroup \<Rightarrow> string \<Rightarrow> service_json
     \<Rightarrow> catalog_child option \<times> ArcGisCatalogGroup" where
  "createMapOrFeatureServer env catalogGroup basePath serviceJson =
     (let serverTypeIndex = array_indexOf validServerTypes (service_type serviceJson) in
      if serverTypeIndex < 0 then (None, catalogGroup)
      else
        let localName = removePathFromName basePath (service_name serviceJson);
            g0 = (if serverTypeIndex = 0
                  then \<lparr>ctor = ArcGisMapServerCatalogGroup_ctor, props = []\<rparr>
                  else \<lparr>ctor = ArcGisFeatureServerCatalogGroup_ctor, props = []\<rparr>);
            g1 = set_prop ''name'' (JString (replaceUnderscores localName)) g0;
            g2 = set_prop ''url''
                   (JString (uri_segment env (uri_segment env (url catalogGroup) localName)
                               (service_type serviceJson))) g1;
            g3 = set_prop ''dataCustodian'' (dataCustodian catalogGroup) g2;
            g4 = set_prop ''blacklist'' (blacklist catalogGroup) g3;
            group = (case itemProperties catalogGroup of
                       Some ps \<Rightarrow> assign_properties ps g4
                     | None \<Rightarrow> g4)
        in (Some group, add group catalogGroup))"

subsection \<open>loadRest\<close>

text \<open>The two \<open>for\<close> loops of the \<open>then\<close> callback, by index.\<close>

function folders_loop ::
  "arcgis_env \<Rightarrow> string \<Rightarrow> string list \<Rightarrow> nat \<Rightarrow> ArcGisCatalogGroup \<Rightarrow> ArcGisCatalogGroup" where
  "folders_loop env basePath fs i catalogGroup =
     (if i < length fs
      then folders_loop env basePath fs (Suc i) (snd (createGroup env catalogGroup basePath (fs ! i)))
      else catalogGroup)"
  by pat_completeness auto
termination
  by (relation "measure (\<lambda>(env, basePath, fs, i, g). length fs - i)") auto

function services_loop ::
  "arcgis_env \<Rightarrow> string \<Rightarrow> service_json list \<Rightarrow> nat \<Rightarrow> ArcGisCatalogGroup \<Rightarrow> ArcGisCatalogGroup" where
  "services_loop env basePath ss i catalogGroup =
     (if i < length ss
      then services_loop env basePath ss (Suc i)
             (snd (createMapOrFeatureServer env catalogGroup basePath (ss ! i)))
      else catalogGroup)"
  by pat_completeness auto
termination
  by (relation "measure (\<lambda>(env, basePath, ss, i, g). length ss - i)") auto

declare folders_loop.simps [simp del] services_loop.simps [simp del]

text \<open>
  \<open>promise.then(f)\<close> and \<open>promise.otherwise(f)\<close> for callbacks that return a plain
  value or throw, and that may change the group on the way.
\<close>

definition then_st ::
  "'a promise \<Rightarrow> ('a \<Rightarrow> 's \<Rightarrow> (js_error + 'b) \<times> 's) \<Rightarrow> 's \<Rightarrow> 'b promise \<times> 's" where
  "then_st p f s =
     (case p of
        Rejected e \<Rightarrow> (Rejected e, s)
      | Resolved v \<Rightarrow>
          (case f v s of (Inl e, s') \<Rightarrow> (Rejected e, s') | (Inr r, s') \<Rightarrow> (Resolved r, s')))"

definition otherwise_st ::
  "'a promise \<times> 's \<Rightarrow> (js_error \<Rightarrow> 's \<Rightarrow> (js_error + 'a) \<times> 's) \<Rightarrow> 'a promise \<times> 's" where
  "otherwise_st ps f =
     (case ps of
        (Resolved v, s) \<Rightarrow> (Resolved v, s)
      | (Rejected e, s) \<Rightarrow>
          (case f e s of (Inl e', s') \<Rightarrow> (Rejected e', s') | (Inr r, s') \<Rightarrow> (Resolved r, s')))"

definition cleanAndProxyUrl :: "arcgis_env \<Rightarrow> ArcGisCatalogGroup \<Rightarrow> string \<Rightarrow> string" where
  "cleanAndProxyUrl env catalogGroup u =
     (let cleanedUrl = uri_without_search env u
      in proxyCatalogItemUrl env catalogGroup cleanedUrl ''1d'')"

text \<open>The callback given to \<open>then\<close>: validation, then the children.\<close>

definition loadRest_then ::
  "arcgis_env \<Rightarrow> rest_response \<Rightarrow> ArcGisCatalogGroup \<Rightarrow> (js_error + unit) \<times> ArcGisCatalogGroup" where
  "loadRest_then env serviceJson catalogGroup =
     (case serviceJson of
        FalsyResponse \<Rightarrow> (Inl (TerriaError ''Invalid ArcGIS Server'' False), catalogGroup)
      | RestDocument fs ss \<Rightarrow>
          if fs = None \<and> ss = None
          then (Inl (TerriaError ''Invalid ArcGIS Server'' False), catalogGroup)
          else
            let basePath = getBasePath catalogGroup;
                g1 = (case fs of
                        Some fl \<Rightarrow> folders_loop env basePath fl 0 catalogGroup
                      | None \<Rightarrow> catalogGroup);
                g2 = (case ss of
                        Some sl \<Rightarrow> services_loop env basePath sl 0 g1
                      | None \<Rightarrow> g1)
            in (Inr (), g2))"

text \<open>The callback given to \<open>otherwise\<close>: whatever was thrown, a new error is.\<close>

definition loadRest_otherwise ::
  "js_error \<Rightarrow> ArcGisCatalogGroup \<Rightarrow> (js_error + unit) \<times> ArcGisCatalogGroup" where
  "loadRest_otherwise e catalogGroup =
     (Inl (TerriaError ''Group is not available'' True), catalogGroup)"

text \<open>
  \<open>loadRest\<close>: the promise it returns, as it settles, and the group afterwards.
  Nothing in its body throws outside the two callbacks.
\<close>

definition loadRest :: "arcgis_env \<Rightarrow> ArcGisCatalogGroup \<Rightarrow> unit promise \<times> ArcGisCatalogGroup" where
  "loadRest env catalogGroup =
     (let serviceUrl = cleanAndProxyUrl env catalogGroup (url catalogGroup) @ ''?f=json''
      in otherwise_st
           (then_st (loadJson env serviceUrl) (loadRest_then env) catalogGroup)
           loadRest_otherwise)"

section \<open>BuildShareLink\<close>

subsection \<open>Objects as ordered property lists\<close>

text \<open>
  A plain JavaScript object: its own properties, in the order in which they were
  created. \<open>obj[k] = v\<close> is \<open>AList.update k v obj\<close>: an existing property keeps its
  place, a new one goes to the end. Property names are taken not to be names that
  \<open>Object.prototype\<close> defines (\<open>constructor\<close>, \<open>__proto__\<close>, ...): what an object
  inherits is not modelled.
\<close>

type_synonym 'v js_object = "(string \<times> 'v) list"

definition is_digit :: "char \<Rightarrow> bool" where
  "is_digit c = (48 \<le> (of_char c :: nat) \<and> (of_char c :: nat) \<le> 57)"

fun decimal_value_from :: "nat \<Rightarrow> string \<Rightarrow> nat" where
  "decimal_value_from acc [] = acc"
| "decimal_value_from acc (c # cs) = decimal_value_from (10 * acc + (of_char c - 48)) cs"

definition decimal_value :: "string \<Rightarrow> nat" where
  "decimal_value k = decimal_value_from 0 k"

text \<open>
  An array index: the canonical decimal form of an integer from 0 to \<open>2^32 - 2\<close>.
\<close>

definition is_array_index :: "string \<Rightarrow> bool" where
  "is_array_index k =
     (k \<noteq> [] \<and> list_all is_digit k \<and> (k = ''0'' \<or> hd k \<noteq> CHR ''0'')
      \<and> decimal_value k < 2 ^ 32 - 1)"

text \<open>
  \<open>Object.keys(obj)\<close>: the array indices in ascending numeric order, then the other
  property names in creation order.
\<close>

definition object_keys :: "'v js_object \<Rightarrow> string list" where
  "object_keys obj =
     (let ks = map fst obj
      in sort_key decimal_value (filter is_array_index ks)
         @ filter (\<lambda>k. \<not> is_array_index k) ks)"

subsection \<open>Serialized catalog members\<close>

text \<open>
  A node of the JSON that \<open>serializeToJson\<close> returns, with the properties this module
  reads or writes as fields (\<open>None\<close> is \<open>undefined\<close>) and every other property in
  \<open>properties\<close>. \<open>id_json\<close> is the property \<open>id\<close> and \<open>items_json\<close> the property
  \<open>items\<close>.
\<close>

datatype member_json = MemberJson
  (id_json: "string option")
  (parents: "string list option")
  (isEnabled: "bool option")
  (isOpen: "bool option")
  (items_json: "member_json list option")
  (properties: "(string \<times> js_value) list")

text \<open>Truthiness of a property that is a boolean or \<open>undefined\<close>.\<close>

definition truthy :: "bool option \<Rightarrow> bool" where
  "truthy b = (b = Some True)"

text \<open>\<open>item.items = undefined\<close> and \<open>item.id = undefined\<close>.\<close>

fun clear_items :: "member_json \<Rightarrow> member_json" where
  "clear_items (MemberJson i ps e opn its others) = MemberJson i ps e opn None others"

fun clear_id :: "member_json \<Rightarrow> member_json" where
  "clear_id (MemberJson i ps e opn its others) = MemberJson None ps e opn its others"

text \<open>
  \<open>flattenCatalog\<close>: the \<open>reduce\<close> pushes the item, then the flattened \<open>items\<close> of
  the item if it has any, and clears the item's \<open>items\<close>; the pushed item is the same
  object, so it is seen without its \<open>items\<close>.
\<close>

fun flattenCatalog :: "member_json list \<Rightarrow> member_json list" where
  "flattenCatalog [] = []"
| "flattenCatalog (MemberJson i ps e opn its others # rest) =
     (case its of
        Some sub \<Rightarrow>
          clear_items (MemberJson i ps e opn its others) # flattenCatalog sub @ flattenCatalog rest
      | None \<Rightarrow> MemberJson i ps e opn its others # flattenCatalog rest)"

subsection \<open>The live catalog and its serializer\<close>

text \<open>
  A member of the live catalog: the properties that the filters and the serializer
  look at as fields, every other property (the name among them) in
  \<open>member_properties\<close>, and the children of a group in \<open>member_items\<close>.
\<close>

datatype catalog_member = CatalogMember
  (uniqueId: string)
  (isUserSupplied: bool)
  (member_url: "string option")
  (member_isEnabled: "bool option")
  (member_isOpen: "bool option")
  (member_properties: "(string \<times> js_value) list")
  (member_items: "catalog_member list option")

text \<open>
  What an item filter is given: the member, and the group that \<open>item.parent\<close> leads
  to.
\<close>

record catalog_item =
  item_self :: catalog_member
  item_parent :: "catalog_member option"

text \<open>
  A filter is a function that may change something as it answers (the filter made by
  \<open>rememberRejections\<close> pushes to an array); \<open>'r\<close> is what it changes.
\<close>

type_synonym ('a, 'r) js_filter = "'a \<Rightarrow> 'r \<Rightarrow> bool \<times> 'r"

definition pure_filter :: "('a \<Rightarrow> bool) \<Rightarrow> ('a, 'r) js_filter" where
  "pure_filter f = (\<lambda>x r. (f x, r))"

text \<open>
  Modelled from the spec: \<open>Core/combineFilters\<close> is not among the sources. The spec
  calls it a "pluggable predicate chain" by which "additional exclusion rules can be
  composed": the combined filter accepts what every filter of the chain accepts. The
  filters are asked in order and the first refusal ends the chain.
\<close>

fun combineFilters :: "('a, 'r) js_filter list \<Rightarrow> ('a, 'r) js_filter" where
  "combineFilters [] x r = (True, r)"
| "combineFilters (f # fs) x r =
     (case f x r of
        (True, r') \<Rightarrow> combineFilters fs x r'
      | (False, r') \<Rightarrow> (False, r'))"

text \<open>
  The options of \<open>serializeToJson\<close>: \<open>itemFilter\<close>, and \<open>propertyFilter\<close> when one
  is given.
\<close>

record 'r serialize_options =
  itemFilter :: "(catalog_item, 'r) js_filter"
  propertyFilter :: "(string \<Rightarrow> catalog_member \<Rightarrow> bool) option"

definition keeps_property :: "'r serialize_options \<Rightarrow> string \<Rightarrow> catalog_member \<Rightarrow> bool" where
  "keeps_property options p m =
     (case propertyFilter options of None \<Rightarrow> True | Some f \<Rightarrow> f p m)"

text \<open>
  Modelled from the spec: \<open>serializeToJson\<close> of \<open>Catalog\<close>, \<open>CatalogGroup\<close> and
  \<open>CatalogMember\<close> is not among the sources. The walk asks the item filter about
  each member it reaches, parents before children and siblings in order. A refused
  member is left out, and its children with it, since children are serialized as the
  \<open>items\<close> of their group. An accepted member is written with its \<open>id\<close>, with
  \<open>parents\<close> (the ids of its ancestors below the root, outermost first: the root is
  never an entry of the shared mapping, and the spec has top-level open groups kept),
  and with the properties that the property filter lets through.
\<close>

fun serializeMember ::
  "'r serialize_options \<Rightarrow> catalog_member option \<Rightarrow> string list \<Rightarrow> catalog_member \<Rightarrow> 'r
     \<Rightarrow> member_json option \<times> 'r"
and serializeItems ::
  "'r serialize_options \<Rightarrow> catalog_member \<Rightarrow> string list \<Rightarrow> catalog_member list \<Rightarrow> 'r
     \<Rightarrow> member_json list \<times> 'r"
where
  "serializeMember options parent ancestors (CatalogMember uid us u en opn others its) r =
     (case itemFilter options
             \<lparr>item_self = CatalogMember uid us u en opn others its, item_parent = parent\<rparr> r of
        (False, r1) \<Rightarrow> (None, r1)
      | (True, r1) \<Rightarrow>
          (let this = CatalogMember uid us u en opn others its;
               keep = (\<lambda>p. keeps_property options p this);
               sub = (case its of
                        Some children \<Rightarrow>
                          if keep ''items''
                          then (case serializeItems options this (ancestors @ [uid]) children r1 of
                                  (js, r2) \<Rightarrow> (Some js, r2))
                          else (None, r1)
                      | None \<Rightarrow> (None, r1))
           in (Some (MemberJson (Some uid) (Some ancestors)
                       (if keep ''isEnabled'' then en else None)
                       (if keep ''isOpen'' then opn else None)
                       (fst sub)
                       (filter (\<lambda>kv. keep (fst kv)) others)),
               snd sub)))"
| "serializeItems options parent ancestors [] r = ([], r)"
| "serializeItems options parent ancestors (m # ms) r =
     (case serializeMember options (Some parent) ancestors m r of
        (None, r1) \<Rightarrow> serializeItems options parent ancestors ms r1
      | (Some j, r1) \<Rightarrow>
          (case serializeItems options parent ancestors ms r1 of
             (js, r2) \<Rightarrow> (j # js, r2)))"

text \<open>
  \<open>terria.catalog.serializeToJson(options)\<close>: the members below the root group.
\<close>

definition serializeToJson ::
  "catalog_member \<Rightarrow> 'r serialize_options \<Rightarrow> 'r \<Rightarrow> member_json list \<times> 'r" where
  "serializeToJson rootGroup options r =
     serializeItems options rootGroup []
       (case member_items rootGroup of Some children \<Rightarrow> children | None \<Rightarrow> []) r"

subsection \<open>The share document\<close>

text \<open>Numbers are not computed with; they are carried as reals.\<close>

record rectangle =
  west :: real
  south :: real
  east :: real
  north :: real

record camera_json =
  camera_west :: real
  camera_south :: real
  camera_east :: real
  camera_north :: real
  camera_position :: js_value
  camera_direction :: js_value
  camera_up :: js_value

record julian_date =
  dayNumber :: real
  secondsOfDay :: real

record terria_settings =
  initialCamera :: camera_json
  homeCamera :: camera_json
  baseMapName :: js_value
  viewerMode_json :: "string option"
  currentTime :: julian_date
  showSplitter_json :: "bool option"
  splitPosition_json :: "real option"

record entity_ref =
  ref_name :: js_value
  ref_hash :: int

record pick_coords =
  lat :: real
  lng :: real
  height :: real

record picked_features_json =
  providerCoords_json :: js_value
  pickCoords :: pick_coords
  current :: "entity_ref option"
  entities :: "entity_ref list"

record location_marker_json =
  marker_name :: js_value
  latitude_json :: real
  longitude_json :: real

text \<open>
  An init source: one that \<open>terria.initSources\<close> already held, or one of the five
  fragments that \<open>getShareData\<close> pushes.
\<close>

datatype init_source =
    ExistingInitSource js_value
  | CatalogFragment (catalog_of: "member_json list")
  | SharedCatalogMembersFragment (sharedCatalogMembers: "member_json option js_object")
  | TerriaSettingsFragment terria_settings
  | PickedFeaturesFragment (pickedFeatures_of: picked_features_json)
  | LocationMarkerFragment location_marker_json

record share_data =
  version :: string
  initSources_of :: "init_source list"

subsection \<open>Terria\<close>

datatype viewer_mode = CesiumTerrain | CesiumEllipsoid | Leaflet | OtherViewerMode

record cartographic =
  latitude :: real
  longitude :: real
  carto_height :: real

text \<open>
  A picked feature: its name, its imagery layer (\<open>None\<close> when it has none) and a
  handle for everything else that \<open>hashEntity\<close> reads.
\<close>

record feature =
  feature_name :: js_value
  imageryLayer :: "js_value option"
  feature_data :: js_value

record picked_features =
  features :: "feature list"
  pickPosition :: js_value
  providerCoords :: js_value

record home_view =
  home_rectangle :: rectangle
  home_position :: js_value
  home_direction :: js_value
  home_up :: js_value

record cesium_camera =
  positionWC :: js_value
  directionWC :: js_value
  upWC :: js_value

text \<open>
  An entity of the location marker's data source: its name and what
  \<open>position.getValue()\<close> returns.
\<close>

record marker_entity =
  marker_entity_name :: js_value
  marker_entity_position :: js_value

record url_shortener =
  shortener_isUsable :: bool
  shorten :: "string \<Rightarrow> string promise"

record share_data_service =
  service_isUsable :: bool
  getShareToken :: "share_data \<Rightarrow> string promise"

record terria =
  terria_initSources :: "init_source list"
  catalog_group :: catalog_member
  currentExtent :: rectangle
  cesium :: "cesium_camera option"
  homeView :: home_view
  clock_currentTime :: julian_date
  viewerMode :: viewer_mode
  baseMap_name :: js_value
  showSplitter :: bool
  splitPosition :: real
  pickedFeatures :: "picked_features option"
  selectedFeature :: "feature option"
  locationMarker :: "marker_entity list option"
  userProperties :: "string js_object"
  urlShortener :: "url_shortener option"
  shareDataService :: "share_data_service option"

text \<open>A parsed URI: what stands before the query, the query data, the fragment.\<close>

record uri =
  uri_base :: string
  uri_query :: "string list js_object"
  uri_fragment :: string

text \<open>
  What the module takes from outside: \<open>window.location\<close>, \<open>JSON.stringify\<close>, Cesium's
  \<open>CesiumMath.toDegrees\<close> and \<open>Ellipsoid.WGS84.cartesianToCartographic\<close>, and from the
  repository the tables \<open>CatalogMember.itemFilters.noLocalData\<close> and
  \<open>CatalogMember.propertyFilters.sharedOnly\<close> and the function \<open>hashEntity\<close>, none
  of them among the sources.
\<close>

record share_env =
  window_location :: uri
  stringify :: "share_data \<Rightarrow> string"
  toDegrees :: "real \<Rightarrow> real"
  cartesianToCartographic :: "js_value \<Rightarrow> cartographic"
  noLocalData :: "catalog_item \<Rightarrow> bool"
  sharedOnly :: "string \<Rightarrow> catalog_member \<Rightarrow> bool"
  hashEntity :: "feature \<Rightarrow> julian_date \<Rightarrow> int"

subsection \<open>addUserAddedCatalog\<close>

text \<open>
  Modelled from the spec: \<open>CatalogMember.itemFilters.userSuppliedOnly\<close> is not among
  the sources; user-added nodes are those with \<open>isUserSupplied == true\<close>.
\<close>

definition userSuppliedOnly :: "catalog_item \<Rightarrow> bool" where
  "userSuppliedOnly item = isUserSupplied (item_self item)"

text \<open>
  \<open>rememberRejections(filterFn)\<close>: the filter it returns, acting on the array
  \<open>rejections\<close> that it returns beside it.
\<close>

definition rememberRejections ::
  "(catalog_item \<Rightarrow> bool) \<Rightarrow> (catalog_item, catalog_item list) js_filter" where
  "rememberRejections filterFn =
     (\<lambda>item rejections.
        let allowed = filterFn item
        in (allowed, if \<not> allowed then rejections @ [item] else rejections))"

text \<open>Truthiness of a URL: a string that is not empty.\<close>

definition truthy_string :: "string option \<Rightarrow> bool" where
  "truthy_string s = (case s of None \<Rightarrow> False | Some v \<Rightarrow> v \<noteq> [])"

text \<open>The third filter of the chain: \<open>!item.parent || !item.parent.url\<close>.\<close>

definition parent_has_no_url :: "catalog_item \<Rightarrow> bool" where
  "parent_has_no_url item =
     (case item_parent item of
        None \<Rightarrow> True
      | Some parent \<Rightarrow> \<not> truthy_string (member_url parent))"

text \<open>
  \<open>addUserAddedCatalog\<close>: the init sources afterwards, and the rejections it returns.
\<close>

definition addUserAddedCatalog ::
  "share_env \<Rightarrow> terria \<Rightarrow> init_source list \<Rightarrow> init_source list \<times> catalog_item list" where
  "addUserAddedCatalog env terria initSources =
     (case serializeToJson (catalog_group terria)
             \<lparr>itemFilter = combineFilters
                 [rememberRejections (noLocalData env),
                  pure_filter userSuppliedOnly,
                  pure_filter parent_has_no_url],
              propertyFilter = None\<rparr> [] of
        (userAddedCatalog, rejections) \<Rightarrow>
          (if length userAddedCatalog > 0
           then initSources @ [CatalogFragment userAddedCatalog]
           else initSources,
           rejections))"

subsection \<open>addSharedMembers\<close>

text \<open>The property name that \<open>soFar[item.id]\<close> uses.\<close>

definition property_key :: "string option \<Rightarrow> string" where
  "property_key k = (case k of Some s \<Rightarrow> s | None \<Rightarrow> ''undefined'')"

text \<open>
  The \<open>reduce\<close> that builds the mapping: \<open>soFar[item.id] = item; item.id = undefined\<close>.
  A value \<open>None\<close> in the mapping is \<open>undefined\<close>.
\<close>

fun reduce_by_id ::
  "member_json list \<Rightarrow> member_json option js_object \<Rightarrow> member_json option js_object" where
  "reduce_by_id [] soFar = soFar"
| "reduce_by_id (item # rest) soFar =
     reduce_by_id rest (AList.update (property_key (id_json item)) (Some (clear_id item)) soFar)"

text \<open>The mapping before the open groups are looked at.\<close>

definition catalogForSharing_of :: "member_json list \<Rightarrow> member_json option js_object" where
  "catalogForSharing_of serialized =
     reduce_by_id
       (filter (\<lambda>item. truthy (isEnabled item) \<or> truthy (isOpen item))
          (flattenCatalog serialized)) []"

text \<open>\<open>!catalogForSharing[parentId]\<close> is the negation of this.\<close>

definition has_entry :: "member_json option js_object \<Rightarrow> string \<Rightarrow> bool" where
  "has_entry obj k = (case map_of obj k of Some (Some item) \<Rightarrow> True | _ \<Rightarrow> False)"

text \<open>
  The \<open>forEach\<close> over the keys: an entry that is open and has a parent id without an
  entry is set to \<open>undefined\<close>; the later keys see the mapping as it then is. Reading
  \<open>isOpen\<close> of \<open>undefined\<close>, or \<open>some\<close> of \<open>undefined\<close>, throws.
\<close>

fun eliminate_open_groups ::
  "string list \<Rightarrow> member_json option js_object \<Rightarrow> js_error + member_json option js_object" where
  "eliminate_open_groups [] catalogForSharing = Inr catalogForSharing"
| "eliminate_open_groups (key # keys) catalogForSharing =
     (case map_of catalogForSharing key of
        Some (Some item) \<Rightarrow>
          if truthy (isOpen item)
          then (case parents item of
                  None \<Rightarrow> Inl (TypeError ''item.parents is undefined'')
                | Some ps \<Rightarrow>
                    if list_ex (\<lambda>parentId. \<not> has_entry catalogForSharing parentId) ps
                    then eliminate_open_groups keys (AList.update key None catalogForSharing)
                    else eliminate_open_groups keys catalogForSharing)
          else eliminate_open_groups keys catalogForSharing
      | _ \<Rightarrow> Inl (TypeError ''item is undefined''))"

text \<open>
  What \<open>addSharedMembers\<close> does with the JSON that the serializer returned.
\<close>

definition share_serialized ::
  "member_json list \<Rightarrow> init_source list \<Rightarrow> js_error + init_source list" where
  "share_serialized serialized initSources =
     (let catalogForSharing = catalogForSharing_of serialized
      in case eliminate_open_groups (object_keys catalogForSharing) catalogForSharing of
           Inl e \<Rightarrow> Inl e
         | Inr pruned \<Rightarrow>
             Inr (if length (object_keys pruned) > 0
                  then initSources @ [SharedCatalogMembersFragment pruned]
                  else initSources))"

text \<open>The property filter that \<open>addSharedMembers\<close> hands to the serializer.\<close>

definition shared_property_filter :: "share_env \<Rightarrow> string \<Rightarrow> catalog_member \<Rightarrow> bool" where
  "shared_property_filter env property item =
     fst (combineFilters
            [pure_filter (\<lambda>pi. sharedOnly env (fst pi) (snd pi)),
             pure_filter (\<lambda>pi. fst pi \<noteq> ''name'')]
            (property, item) ())"

definition shared_serialized :: "share_env \<Rightarrow> terria \<Rightarrow> member_json list" where
  "shared_serialized env terria =
     fst (serializeToJson (catalog_group terria)
            \<lparr>itemFilter = combineFilters [pure_filter (noLocalData env)],
             propertyFilter = Some (shared_property_filter env)\<rparr> ())"

definition addSharedMembers ::
  "share_env \<Rightarrow> terria \<Rightarrow> init_source list \<Rightarrow> js_error + init_source list" where
  "addSharedMembers env terria initSources =
     share_serialized (shared_serialized env terria) initSources"

subsection \<open>addViewSettings, addFeaturePicking, addLocationMarker\<close>

definition addViewSettings :: "share_env \<Rightarrow> terria \<Rightarrow> init_source list \<Rightarrow> init_source list" where
  "addViewSettings env terria initSources =
     (let cameraExtent = currentExtent terria;
          initialCamera0 =
            \<lparr>camera_west = toDegrees env (west cameraExtent),
             camera_south = toDegrees env (south cameraExtent),
             camera_east = toDegrees env (east cameraExtent),
             camera_north = toDegrees env (north cameraExtent),
             camera_position = JUndefined,
             camera_direction = JUndefined,
             camera_up = JUndefined\<rparr>;
          initialCamera1 =
            (case cesium terria of
               Some cesiumCamera \<Rightarrow>
                 initialCamera0\<lparr>camera_position := positionWC cesiumCamera,
                                camera_direction := directionWC cesiumCamera,
                                camera_up := upWC cesiumCamera\<rparr>
             | None \<Rightarrow> initialCamera0);
          homeCamera1 =
            \<lparr>camera_west = toDegrees env (west (home_rectangle (homeView terria))),
             camera_south = toDegrees env (south (home_rectangle (homeView terria))),
             camera_east = toDegrees env (east (home_rectangle (homeView terria))),
             camera_north = toDegrees env (north (home_rectangle (homeView terria))),
             camera_position = home_position (homeView terria),
             camera_direction = home_direction (homeView terria),
             camera_up = home_up (homeView terria)\<rparr>;
          time = \<lparr>dayNumber = dayNumber (clock_currentTime terria),
                  secondsOfDay = secondsOfDay (clock_currentTime terria)\<rparr>;
          viewerMode1 =
            (case viewerMode terria of
               CesiumTerrain \<Rightarrow> Some ''3d''
             | CesiumEllipsoid \<Rightarrow> Some ''3dSmooth''
             | Leaflet \<Rightarrow> Some ''2d''
             | OtherViewerMode \<Rightarrow> None);
          terriaSettings0 =
            \<lparr>initialCamera = initialCamera1,
             homeCamera = homeCamera1,
             baseMapName = baseMap_name terria,
             viewerMode_json = viewerMode1,
             currentTime = time,
             showSplitter_json = None,
             splitPosition_json = None\<rparr>;
          terriaSettings1 =
            (if showSplitter terria
             then terriaSettings0\<lparr>showSplitter_json := Some (showSplitter terria),
                                  splitPosition_json := Some (splitPosition terria)\<rparr>
             else terriaSettings0)
      in initSources @ [TerriaSettingsFragment terriaSettings1])"

definition addFeaturePicking :: "share_env \<Rightarrow> terria \<Rightarrow> init_source list \<Rightarrow> init_source list" where
  "addFeaturePicking env terria initSources =
     (case pickedFeatures terria of
        None \<Rightarrow> initSources
      | Some picked \<Rightarrow>
          if length (features picked) > 0
          then
            (let positionInRadians = cartesianToCartographic env (pickPosition picked);
                 pickedFeatures0 =
                   \<lparr>providerCoords_json = providerCoords picked,
                    pickCoords =
                      \<lparr>lat = toDegrees env (latitude positionInRadians),
                       lng = toDegrees env (longitude positionInRadians),
                       height = carto_height positionInRadians\<rparr>,
                    current = None,
                    entities = []\<rparr>;
                 pickedFeatures1 =
                   (case selectedFeature terria of
                      Some selected \<Rightarrow>
                        pickedFeatures0\<lparr>current :=
                          Some \<lparr>ref_name = feature_name selected,
                                ref_hash = hashEntity env selected (clock_currentTime terria)\<rparr>\<rparr>
                    | None \<Rightarrow> pickedFeatures0);
                 pickedFeatures2 =
                   pickedFeatures1\<lparr>entities :=
                     map (\<lambda>entity.
                            \<lparr>ref_name = feature_name entity,
                             ref_hash = hashEntity env entity (clock_currentTime terria)\<rparr>)
                       (filter (\<lambda>feature. \<not> (imageryLayer feature \<noteq> None)) (features picked))\<rparr>
             in initSources @ [PickedFeaturesFragment pickedFeatures2])
          else initSources)"

text \<open>
  \<open>terria.locationMarker.entities.values[0]\<close> is \<open>undefined\<close> when there is no entity,
  and reading its \<open>position\<close> throws.
\<close>

definition addLocationMarker ::
  "share_env \<Rightarrow> terria \<Rightarrow> init_source list \<Rightarrow> js_error + init_source list" where
  "addLocationMarker env terria initSources =
     (case locationMarker terria of
        None \<Rightarrow> Inr initSources
      | Some values \<Rightarrow>
          (case values of
             [] \<Rightarrow> Inl (TypeError ''entities.values[0] is undefined'')
           | first # others \<Rightarrow>
               (let position = marker_entity_position first;
                    positionDegrees = cartesianToCartographic env position
                in Inr (initSources @
                     [LocationMarkerFragment
                        \<lparr>marker_name = marker_entity_name first,
                         latitude_json = toDegrees env (latitude positionDegrees),
                         longitude_json = toDegrees env (longitude positionDegrees)\<rparr>]))))"

subsection \<open>getShareData\<close>

definition getShareData :: "share_env \<Rightarrow> terria \<Rightarrow> js_error + share_data" where
  "getShareData env terria =
     (let initSources0 = terria_initSources terria;
          initSources1 = fst (addUserAddedCatalog env terria initSources0)
      in case addSharedMembers env terria initSources1 of
           Inl e \<Rightarrow> Inl e
         | Inr initSources2 \<Rightarrow>
             (let initSources3 = addViewSettings env terria initSources2;
                  initSources4 = addFeaturePicking env terria initSources3
              in case addLocationMarker env terria initSources4 of
                   Inl e \<Rightarrow> Inl e
                 | Inr initSources5 \<Rightarrow>
                     Inr \<lparr>version = ''0.0.05'', initSources_of = initSources5\<rparr>))"

subsection \<open>URI.js\<close>

text \<open>
  \<open>URI.encodeQuery\<close>: \<open>encodeURIComponent\<close> made strict, with the space written as a plus
  sign. A string is its UTF-8 bytes here: letters, digits and \<open>- _ . ~\<close> stay, every
  other byte becomes a percent sign and two upper-case hexadecimal digits.
\<close>

definition is_unreserved :: "char \<Rightarrow> bool" where
  "is_unreserved c =
     (let n = (of_char c :: nat)
      in (48 \<le> n \<and> n \<le> 57) \<or> (65 \<le> n \<and> n \<le> 90) \<or> (97 \<le> n \<and> n \<le> 122)
         \<or> c = CHR ''-'' \<or> c = CHR ''_'' \<or> c = CHR ''.'' \<or> c = CHR ''~'')"

definition hex_digit :: "nat \<Rightarrow> char" where
  "hex_digit d = (if d < 10 then char_of (48 + d) else char_of (55 + d))"

definition encode_char :: "char \<Rightarrow> string" where
  "encode_char c =
     (if is_unreserved c then [c]
      else if c = CHR '' '' then ''+''
      else [CHR ''%'', hex_digit ((of_char c :: nat) div 16), hex_digit ((of_char c :: nat) mod 16)])"

definition encodeQuery :: "string \<Rightarrow> string" where
  "encodeQuery s = concat (map encode_char s)"

text \<open>
  \<open>URI.addQuery(data, name, value)\<close> for a string name; \<open>None\<close> is an \<open>undefined\<close>
  value, which leaves no trace in the query that is built.
\<close>

definition addQuery :: "string list js_object \<Rightarrow> string \<Rightarrow> string option \<Rightarrow> string list js_object" where
  "addQuery data name v =
     (case v of
        None \<Rightarrow> data
      | Some s \<Rightarrow>
          (case map_of data name of
             None \<Rightarrow> AList.update name [s] data
           | Some vs \<Rightarrow> AList.update name (vs @ [s]) data))"

text \<open>The values of one name, each once, in the order of first appearance.\<close>

fun unique_values :: "string list \<Rightarrow> string list \<Rightarrow> string list" where
  "unique_values seen [] = []"
| "unique_values seen (v # vs) =
     (if v \<in> set seen then unique_values seen vs else v # unique_values (v # seen) vs)"

text \<open>\<open>URI.buildQuery(data)\<close>; a property with the empty name is skipped.\<close>

fun buildQuery_parts :: "string list js_object \<Rightarrow> string" where
  "buildQuery_parts [] = []"
| "buildQuery_parts ((key, vs) # rest) =
     (if key \<noteq> []
      then concat (map (\<lambda>v. ''&'' @ encodeQuery key @ ''='' @ encodeQuery v) (unique_values [] vs))
           @ buildQuery_parts rest
      else buildQuery_parts rest)"

definition buildQuery :: "string list js_object \<Rightarrow> string" where
  "buildQuery data = substring (buildQuery_parts data) 1"

text \<open>\<open>uri.fragment(v)\<close>: one leading \<open>#\<close> of the new fragment is dropped.\<close>

definition set_fragment :: "string \<Rightarrow> uri \<Rightarrow> uri" where
  "set_fragment v u =
     u\<lparr>uri_fragment := (if v \<noteq> [] \<and> hd v = CHR ''#'' then substring v 1 else v)\<rparr>"

text \<open>\<open>uri.search(data)\<close> with an object, \<open>uri.addSearch({name: value})\<close>, \<open>uri.query('')\<close>.\<close>

definition set_search :: "string list js_object \<Rightarrow> uri \<Rightarrow> uri" where
  "set_search data u = u\<lparr>uri_query := data\<rparr>"

definition addSearch :: "string \<Rightarrow> string option \<Rightarrow> uri \<Rightarrow> uri" where
  "addSearch name v u = u\<lparr>uri_query := addQuery (uri_query u) name v\<rparr>"

definition clear_query :: "uri \<Rightarrow> uri" where
  "clear_query u = u\<lparr>uri_query := []\<rparr>"

text \<open>\<open>uri.query()\<close> and \<open>uri.toString()\<close>.\<close>

definition query_string :: "uri \<Rightarrow> string" where
  "query_string u = buildQuery (uri_query u)"

definition uri_toString :: "uri \<Rightarrow> string" where
  "uri_toString u =
     uri_base u
     @ (if query_string u \<noteq> [] then ''?'' @ query_string u else [])
     @ (if uri_fragment u \<noteq> [] then ''#'' @ uri_fragment u else [])"

subsection \<open>buildShareLink, canShorten, buildShortShareLink\<close>

definition userPropWhiteList :: "string list" where
  "userPropWhiteList = [''hideExplorerPanel'', ''activeTabId'']"

text \<open>
  The \<open>forEach\<close> over the white list. The object literal \<open>{ key: ... }\<close> has the one
  property named \<open>key\<close>, whatever the variable \<open>key\<close> holds.
\<close>

fun add_user_properties :: "string list \<Rightarrow> terria \<Rightarrow> uri \<Rightarrow> uri" where
  "add_user_properties [] terria u = u"
| "add_user_properties (key # keys) terria u =
     add_user_properties keys terria (addSearch ''key'' (map_of (userProperties terria) key) u)"

definition buildShareLink :: "share_env \<Rightarrow> terria \<Rightarrow> js_error + string" where
  "buildShareLink env terria =
     (case getShareData env terria of
        Inl e \<Rightarrow> Inl e
      | Inr shareData \<Rightarrow>
          (let uri0 = set_search [(''start'', [stringify env shareData])]
                        (set_fragment [] (window_location env));
               uri1 = add_user_properties userPropWhiteList terria uri0
           in Inr (uri_toString (clear_query (set_fragment (query_string uri1) uri1)))))"

definition canShorten :: "terria \<Rightarrow> bool" where
  "canShorten terria =
     ((case urlShortener terria of Some s \<Rightarrow> shortener_isUsable s | None \<Rightarrow> False)
      \<or> (case shareDataService terria of Some s \<Rightarrow> service_isUsable s | None \<Rightarrow> False))"

text \<open>\<open>promise.then(f)\<close> for a callback that returns a plain value and does not throw.\<close>

definition then_map :: "'a promise \<Rightarrow> ('a \<Rightarrow> 'b) \<Rightarrow> 'b promise" where
  "then_map p f = (case p of Resolved v \<Rightarrow> Resolved (f v) | Rejected e \<Rightarrow> Rejected e)"

definition urlFromToken :: "share_env \<Rightarrow> string \<Rightarrow> string" where
  "urlFromToken env token = uri_toString (set_fragment (''share='' @ token) (window_location env))"

text \<open>
  \<open>buildShortShareLink\<close>: \<open>Inl\<close> when something throws before a promise is there
  (the comment in the source assumes that the URL shortener is defined).
\<close>

definition buildShortShareLink :: "share_env \<Rightarrow> terria \<Rightarrow> js_error + string promise" where
  "buildShortShareLink env terria =
     (case shareDataService terria of
        Some service \<Rightarrow>
          (case getShareData env terria of
             Inl e \<Rightarrow> Inl e
           | Inr shareData \<Rightarrow> Inr (then_map (getShareToken service shareData) (urlFromToken env)))
      | None \<Rightarrow>
          (case urlShortener terria of
             None \<Rightarrow> Inl (TypeError ''terria.urlShortener is undefined'')
           | Some shortener \<Rightarrow>
               (case buildShareLink env terria of
                  Inl e \<Rightarrow> Inl e
                | Inr link \<Rightarrow> Inr (then_map (shorten shortener link) (urlFromToken env)))))"

section \<open>sendFeedback\<close>

text \<open>
  The value of \<open>shareLinkPromise\<close>: \<open>buildShareLink\<close> returns a string, the other two
  branches a promise.
\<close>

datatype share_link_value = PlainString string | PromiseOf "string promise"

definition shareLinkPromise :: "share_env \<Rightarrow> bool \<Rightarrow> terria \<Rightarrow> js_error + share_link_value" where
  "shareLinkPromise env sendShareURL terria =
     (if sendShareURL
      then (if canShorten terria
            then map_sum (\<lambda>e. e) PromiseOf (buildShortShareLink env terria)
            else map_sum (\<lambda>e. e) PlainString (buildShareLink env terria))
      else Inr (PromiseOf (Resolved ''Not shared'')))"

text \<open>
  \<open>shareLinkPromise.then(...)\<close>: the promise whose value is posted as \<open>shareLink\<close>; a
  string has no \<open>then\<close>.
\<close>

definition shareLink_posted :: "share_env \<Rightarrow> bool \<Rightarrow> terria \<Rightarrow> js_error + string promise" where
  "shareLink_posted env sendShareURL terria =
     (case shareLinkPromise env sendShareURL terria of
        Inl e \<Rightarrow> Inl e
      | Inr (PlainString s) \<Rightarrow> Inl (TypeError ''shareLinkPromise.then is not a function'')
      | Inr (PromiseOf p) \<Rightarrow> Inr p)"

section \<open>Notions of the spec\<close>


text \<open>
  \<open>parents\<close> holds whole ancestor chains: the parents of an entry's parent are parents
  of the entry.
\<close>

definition ancestor_closed :: "member_json option js_object \<Rightarrow> bool" where
  "ancestor_closed obj =
     list_all
       (\<lambda>kv. case snd kv of
                None \<Rightarrow> True
              | Some e \<Rightarrow>
                  (case parents e of
                     None \<Rightarrow> True
                   | Some ps \<Rightarrow>
                       list_all
                         (\<lambda>p. case map_of obj p of
                                 Some (Some e') \<Rightarrow>
                                   (case parents e' of
                                      Some ps' \<Rightarrow> list_all (\<lambda>q. q \<in> set ps) ps'
                                    | None \<Rightarrow> True)
                               | _ \<Rightarrow> True)
                         ps))
       obj"

text \<open>
  The members that the walk of the serializer reaches under an item filter that accepts
  what \<open>accept\<close> accepts: a member is reached when every ancestor of it below the root
  is accepted. Parents come before their children, siblings in order.
\<close>

fun visited_member ::
  "(catalog_item \<Rightarrow> bool) \<Rightarrow> catalog_member option \<Rightarrow> catalog_member \<Rightarrow> catalog_item list"
and visited_items ::
  "(catalog_item \<Rightarrow> bool) \<Rightarrow> catalog_member \<Rightarrow> catalog_member list \<Rightarrow> catalog_item list"
where
  "visited_member accept parent (CatalogMember uid us u en opn others its) =
     \<lparr>item_self = CatalogMember uid us u en opn others its, item_parent = parent\<rparr>
     # (if accept \<lparr>item_self = CatalogMember uid us u en opn others its, item_parent = parent\<rparr>
        then (case its of
                Some children \<Rightarrow>
                  visited_items accept (CatalogMember uid us u en opn others its) children
              | None \<Rightarrow> [])
        else [])"
| "visited_items accept parent [] = []"
| "visited_items accept parent (m # ms) =
     visited_member accept (Some parent) m @ visited_items accept parent ms"

definition visited :: "(catalog_item \<Rightarrow> bool) \<Rightarrow> catalog_member \<Rightarrow> catalog_item list" where
  "visited accept rootGroup =
     visited_items accept rootGroup
       (case member_items rootGroup of Some children \<Rightarrow> children | None \<Rightarrow> [])"

text \<open>
  The spec's rule for user-added nodes: user-supplied, without local data, and with a
  parent that "either has no URL or has a different URL than would regenerate this
  node automatically"; the URL that regenerates a node is read as the node's own.
\<close>

definition spec_user_added :: "share_env \<Rightarrow> catalog_item \<Rightarrow> bool" where
  "spec_user_added env item =
     (isUserSupplied (item_self item) \<and> noLocalData env item
      \<and> (case item_parent item of
            None \<Rightarrow> True
          | Some parent \<Rightarrow>
              \<not> truthy_string (member_url parent)
              \<or> member_url parent \<noteq> member_url (item_self item)))"

text \<open>The verdict of the three filters of \<open>addUserAddedCatalog\<close> together.\<close>

definition passes_user_added_filters :: "share_env \<Rightarrow> catalog_item \<Rightarrow> bool" where
  "passes_user_added_filters env item =
     (noLocalData env item \<and> userSuppliedOnly item \<and> parent_has_no_url item)"

section \<open>Example inputs\<close>

text \<open>
  A stand-in for the collaborators: segments are joined with a slash, the search part
  is cut at the question mark, nothing is proxied, and \<open>loadJson\<close> settles as told.
\<close>

definition example_env :: "rest_response promise \<Rightarrow> arcgis_env" where
  "example_env response =
     \<lparr>uri_segment = (\<lambda>u s. u @ ''/'' @ s),
      uri_without_search = (\<lambda>u. takeWhile (\<lambda>c. c \<noteq> CHR ''?'') u),
      proxyCatalogItemUrl = (\<lambda>g u d. u),
      loadJson = (\<lambda>u. response)\<rparr>"

text \<open>A folder of an ArcGIS server, as a group that has not loaded yet.\<close>

definition example_group :: ArcGisCatalogGroup where
  "example_group =
     \<lparr>url = ''http://host/arcgis/rest/services/Folder'', dataCustodian = JUndefined,
      blacklist = JUndefined, itemProperties = None, items = []\<rparr>"

definition example_services :: "service_json list" where
  "example_services =
     [\<lparr>service_name = ''Folder/My_Roads'', service_type = ''MapServer''\<rparr>,
      \<lparr>service_name = ''Folder/Tiles'', service_type = ''ImageServer''\<rparr>,
      \<lparr>service_name = ''Folder/Land_Parcels'', service_type = ''FeatureServer''\<rparr>]"

definition example_document :: rest_response where
  "example_document = RestDocument (Some [''Folder/Sub_A'']) (Some example_services)"

text \<open>
  A stand-in for what the share module takes from outside: degrees are the numbers
  given, every pick position is at the origin, no item has local data, every
  property may be shared, and the stringified document shows its version only.
\<close>

definition example_share_env :: share_env where
  "example_share_env =
     \<lparr>window_location = \<lparr>uri_base = ''http://map.example/'', uri_query = [], uri_fragment = []\<rparr>,
      stringify = (\<lambda>d. ''{'' @ version d @ ''}''),
      toDegrees = (\<lambda>x. x),
      cartesianToCartographic = (\<lambda>v. \<lparr>latitude = 0, longitude = 0, carto_height = 0\<rparr>),
      noLocalData = (\<lambda>item. True),
      sharedOnly = (\<lambda>p m. True),
      hashEntity = (\<lambda>f t. 0)\<rparr>"




definition example_root :: "catalog_member list \<Rightarrow> catalog_member" where
  "example_root members = CatalogMember ''Root Group'' False None None (Some True) [] (Some members)"

text \<open>A Terria with the given catalog and nothing picked, marked or configured.\<close>

definition example_terria :: "catalog_member list \<Rightarrow> terria" where
  "example_terria members =
     \<lparr>terria_initSources = [],
      catalog_group = example_root members,
      currentExtent = \<lparr>west = 0, south = 0, east = 0, north = 0\<rparr>,
      cesium = None,
      homeView = \<lparr>home_rectangle = \<lparr>west = 0, south = 0, east = 0, north = 0\<rparr>,
                  home_position = JUndefined, home_direction = JUndefined, home_up = JUndefined\<rparr>,
      clock_currentTime = \<lparr>dayNumber = 0, secondsOfDay = 0\<rparr>,
      viewerMode = Leaflet,
      baseMap_name = JString ''Positron'',
      showSplitter = False,
      splitPosition = 0,
      pickedFeatures = None,
      selectedFeature = None,
      locationMarker = None,
      userProperties = [],
      urlShortener = None,
      shareDataService = None\<rparr>"

text \<open>
  A group that the user added from a server, and in it an item that the user added
  from a file elsewhere.
\<close>

definition example_csv :: catalog_member where
  "example_csv =
     CatalogMember ''User Group/My CSV'' True (Some ''http://files.example/data.csv'')
       (Some True) None [(''name'', JString ''My CSV'')] None"

definition example_user_group :: catalog_member where
  "example_user_group =
     CatalogMember ''User Group'' True (Some ''http://server.example/wms'')
       None (Some True) [(''name'', JString ''User Group'')] (Some [example_csv])"

text \<open>An item that holds local data, and an environment whose filter knows it.\<close>

definition example_local :: catalog_member where
  "example_local =
     CatalogMember ''Local File'' True None (Some True) None
       [(''name'', JString ''Local File'')] None"

definition example_local_env :: share_env where
  "example_local_env =
     example_share_env\<lparr>noLocalData := (\<lambda>item. uniqueId (item_self item) \<noteq> ''Local File'')\<rparr>"

text \<open>Three picked features: the second one comes from an imagery layer.\<close>

definition example_picked :: picked_features where
  "example_picked =
     \<lparr>features =
        [\<lparr>feature_name = JString ''Well 1'', imageryLayer = None, feature_data = JNumber 1\<rparr>,
         \<lparr>feature_name = JString ''Pixel'', imageryLayer = Some (JString ''wms''),
          feature_data = JNumber 2\<rparr>,
         \<lparr>feature_name = JString ''Well 2'', imageryLayer = None, feature_data = JNumber 3\<rparr>],
      pickPosition = JUndefined,
      providerCoords = JUndefined\<rparr>"

definition example_hash_env :: share_env where
  "example_hash_env =
     example_share_env\<lparr>hashEntity :=
       (\<lambda>f t. case feature_data f of JNumber n \<Rightarrow> n | _ \<Rightarrow> 0)\<rparr>"


definition example_service :: "bool \<Rightarrow> string promise \<Rightarrow> share_data_service" where
  "example_service usable answer = \<lparr>service_isUsable = usable, getShareToken = (\<lambda>d. answer)\<rparr>"

section \<open>Proofs: ArcGisCatalogGroup\<close>

subsection \<open>Dispatch on the URL\<close>









subsection \<open>Naming the children\<close>

lemma indexOf_from_range: "indexOf_from i needle s = -1 \<or> i \<le> indexOf_from i needle s"
proof (induction s arbitrary: i)
  case Nil
  then show ?case by simp
next
  case (Cons c cs)
  from Cons [of "i + 1"] show ?case by auto
qed

lemma indexOf_zero_iff_prefix: "indexOf name basePath = 0 \<longleftrightarrow> prefix basePath name"
proof (cases name)
  case Nil
  then show ?thesis by (simp add: indexOf_def)
next
  case (Cons c cs)
  from indexOf_from_range [of 1 basePath cs]
  have "indexOf_from 1 basePath cs \<noteq> 0" by auto
  with Cons show ?thesis by (simp add: indexOf_def)
qed

lemma removePathFromName_eq:
  "removePathFromName basePath name =
     (if basePath \<noteq> [] \<and> prefix basePath name then drop (length basePath + 1) name else name)"
  by (simp add: removePathFromName_def indexOf_zero_iff_prefix substring_def Let_def)

lemma get_prop_set_prop:
  "get_prop (set_prop k v child) k' = (if k' = k then v else get_prop child k')"
  by (simp add: get_prop_def set_prop_def update_conv')

lemma ctor_set_prop: "ctor (set_prop k v child) = ctor child"
  by (simp add: set_prop_def)

lemma get_prop_assign_properties:
  "k \<notin> fst ` set ps \<Longrightarrow> get_prop (assign_properties ps child) k = get_prop child k"
  by (induction ps child rule: assign_properties.induct) (auto simp: get_prop_set_prop)

lemma ctor_assign_properties: "ctor (assign_properties ps child) = ctor child"
  by (induction ps child rule: assign_properties.induct) (auto simp: ctor_set_prop)

lemma array_indexOf_validServerTypes:
  "array_indexOf validServerTypes t =
     (if t = ''MapServer'' then 0 else if t = ''FeatureServer'' then 1 else -1)"
  by (simp add: array_indexOf_def validServerTypes_def)

lemma createGroup_name:
  assumes "case itemProperties g of None \<Rightarrow> True | Some ps \<Rightarrow> ''name'' \<notin> fst ` set ps"
  shows "get_prop (fst (createGroup env g basePath folderJson)) ''name'' =
           JString (replaceUnderscores (removePathFromName basePath folderJson))"
  using assms
  by (auto simp: createGroup_def Let_def updateFromJson_def get_prop_assign_properties
      get_prop_set_prop split: option.splits)

lemma createMapOrFeatureServer_name:
  assumes "case itemProperties g of None \<Rightarrow> True | Some ps \<Rightarrow> ''name'' \<notin> fst ` set ps"
    and "service_type sj = ''MapServer'' \<or> service_type sj = ''FeatureServer''"
  shows "\<exists>child. fst (createMapOrFeatureServer env g basePath sj) = Some child \<and>
           get_prop child ''name'' =
             JString (replaceUnderscores (removePathFromName basePath (service_name sj)))"
  using assms
  by (auto simp: createMapOrFeatureServer_def Let_def array_indexOf_validServerTypes
      get_prop_assign_properties get_prop_set_prop split: option.splits)

lemma exec_after_Some:
  "exec_after lit s = Some rest \<Longrightarrow> \<exists>pre m. s = pre @ m @ rest \<and> ci_equal m lit"
proof (induction s)
  case Nil
  then show ?case by (auto simp: ci_equal_def split: if_splits)
next
  case (Cons c cs)
  show ?case
  proof (cases "length lit \<le> length (c # cs) \<and> ci_equal (take (length lit) (c # cs)) lit")
    case True
    with Cons.prems have "rest = drop (length lit) (c # cs)" by simp
    then have "c # cs = [] @ take (length lit) (c # cs) @ rest" by simp
    with True show ?thesis by blast
  next
    case False
    with Cons.prems have "exec_after lit cs = Some rest" by auto
    from Cons.IH [OF this] obtain pre m where "cs = pre @ m @ rest" "ci_equal m lit" by blast
    then have "c # cs = (c # pre) @ m @ rest" by simp
    with \<open>ci_equal m lit\<close> show ?thesis by blast
  qed
qed

lemma getBasePath_in_url:
  "getBasePath g = [] \<or>
   (\<exists>pre m tail. url g = pre @ m @ getBasePath g @ tail \<and> ci_equal m ''rest/services/'')"
proof (cases "exec_after ''rest/services/'' (url g)")
  case None
  then show ?thesis by (simp add: getBasePath_def)
next
  case (Some rest)
  from exec_after_Some [OF Some] obtain pre m where
    u: "url g = pre @ m @ rest" and m: "ci_equal m ''rest/services/''" by blast
  have b: "getBasePath g = takeWhile (\<lambda>c. \<not> line_terminator c) rest"
    by (simp add: getBasePath_def Some)
  have "url g = pre @ m @ getBasePath g @ dropWhile (\<lambda>c. \<not> line_terminator c) rest"
    unfolding b u by simp
  with m show ?thesis by blast
qed

lemma example_basePath: "getBasePath example_group = ''Folder''"
  by code_simp

text \<open>
  Claim C8 (as amended). The base path is empty or stands in the parent URL right after
  \<open>rest/services/\<close> (matched without case). When the parent's \<open>itemProperties\<close> do
  not set \<open>name\<close>, the display name of a child made from a folder or service
  identifier is: the rest of the identifier, underscores replaced by spaces, when the
  base path is not empty and the identifier is the base path, a slash and that rest;
  the whole identifier, underscores replaced by spaces, when the base path is empty
  or the identifier does not begin with it.
\<close>

theorem child_display_name:
  assumes "case itemProperties g of None \<Rightarrow> True | Some ps \<Rightarrow> ''name'' \<notin> fst ` set ps"
  shows
   "(getBasePath g = [] \<or>
      (\<exists>pre m tail. url g = pre @ m @ getBasePath g @ tail \<and> ci_equal m ''rest/services/''))
    \<and> (getBasePath g \<noteq> [] \<and> ident = getBasePath g @ CHR ''/'' # rest \<longrightarrow>
         get_prop (fst (createGroup env g (getBasePath g) ident)) ''name'' =
           JString (replaceUnderscores rest))
    \<and> (getBasePath g = [] \<or> \<not> prefix (getBasePath g) ident \<longrightarrow>
         get_prop (fst (createGroup env g (getBasePath g) ident)) ''name'' =
           JString (replaceUnderscores ident))
    \<and> (service_type sj = ''MapServer'' \<or> service_type sj = ''FeatureServer'' \<longrightarrow>
         (\<exists>child. fst (createMapOrFeatureServer env g (getBasePath g) sj) = Some child \<and>
            (getBasePath g \<noteq> [] \<and> service_name sj = getBasePath g @ CHR ''/'' # rest \<longrightarrow>
               get_prop child ''name'' = JString (replaceUnderscores rest)) \<and>
            (getBasePath g = [] \<or> \<not> prefix (getBasePath g) (service_name sj) \<longrightarrow>
               get_prop child ''name'' = JString (replaceUnderscores (service_name sj)))))"
proof -
  have strip: "removePathFromName bp (bp @ CHR ''/'' # rest) = rest" if "bp \<noteq> []" for bp
    using that by (simp add: removePathFromName_eq)
  have keep: "removePathFromName bp n = n" if "bp = [] \<or> \<not> prefix bp n" for bp n
    using that by (auto simp: removePathFromName_eq)
  show ?thesis
    using getBasePath_in_url [of g]
      createGroup_name [OF assms, of env "getBasePath g" ident]
      createMapOrFeatureServer_name [OF assms, of sj env "getBasePath g"]
      strip [of "getBasePath g"] keep [of "getBasePath g"]
    by auto
qed

text \<open>
  The rule at the folder \<open>Folder\<close>: \<open>Folder/My_Roads\<close> is shown as \<open>My Roads\<close>, as a
  folder and as a MapServer service, and \<open>Other_Folder\<close> as \<open>Other Folder\<close>.
\<close>

theorem child_display_name_witness:
  "get_prop (fst (createGroup (example_env (Resolved example_document)) example_group
       (getBasePath example_group) ''Folder/My_Roads'')) ''name'' = JString ''My Roads''
   \<and> get_prop (fst (createGroup (example_env (Resolved example_document)) example_group
       (getBasePath example_group) ''Other_Folder'')) ''name'' = JString ''Other Folder''
   \<and> (\<exists>child. fst (createMapOrFeatureServer (example_env (Resolved example_document)) example_group
         (getBasePath example_group) (hd example_services)) = Some child
        \<and> get_prop child ''name'' = JString ''My Roads'')"
proof -
  let ?E = "example_env (Resolved example_document)"
  have h: "case itemProperties example_group of None \<Rightarrow> True | Some ps \<Rightarrow> ''name'' \<notin> fst ` set ps"
    by (simp add: example_group_def)
  have r: "replaceUnderscores ''My_Roads'' = ''My Roads''"
    "replaceUnderscores ''Other_Folder'' = ''Other Folder''"
    by (simp_all add: replaceUnderscores_def)
  have s: "service_type (hd example_services) = ''MapServer''"
    "service_name (hd example_services) = ''Folder/My_Roads''"
    by (simp_all add: example_services_def)
  from child_display_name [OF h, of "''Folder/My_Roads''" "''My_Roads''" ?E "hd example_services"]
    child_display_name [OF h, of "''Other_Folder''" "''''" ?E "hd example_services"]
  show ?thesis
    by (simp add: example_basePath r s)
qed

text \<open>
  Claim C8 as stated fails. \<open>Folder/My_Roads\<close> begins with the base path \<open>Folder\<close>;
  with only that prefix stripped the name would be \<open>/My Roads\<close>, and the child is
  named \<open>My Roads\<close>: the character after the base path goes too. And a \<open>name\<close> in
  the parent's \<open>itemProperties\<close> replaces the derived name.
\<close>

theorem child_display_name_counterexample:
  "prefix (getBasePath example_group) ''Folder/My_Roads''
   \<and> get_prop (fst (createGroup (example_env (Resolved example_document)) example_group
         (getBasePath example_group) ''Folder/My_Roads'')) ''name''
       = JString ''My Roads''
   \<and> JString (replaceUnderscores (drop (length (getBasePath example_group)) ''Folder/My_Roads''))
       = JString ''/My Roads''
   \<and> get_prop (fst (createGroup (example_env (Resolved example_document))
         (example_group\<lparr>itemProperties := Some [(''name'', JString ''Fixed'')]\<rparr>)
         (getBasePath example_group) ''Folder/My_Roads'')) ''name''
       = JString ''Fixed''"
  unfolding example_basePath
  by (simp add: createGroup_def Let_def removePathFromName_eq get_prop_set_prop
      updateFromJson_def replaceUnderscores_def example_group_def)

subsection \<open>loadRest\<close>

lemma createGroup_child_items:
  "fst (createGroup env (g\<lparr>items := xs\<rparr>) bp f) = fst (createGroup env g bp f)"
  by (simp add: createGroup_def Let_def)

lemma createGroup_snd:
  "snd (createGroup env g bp f) = g\<lparr>items := items g @ [fst (createGroup env g bp f)]\<rparr>"
  by (simp add: createGroup_def Let_def add_def)

lemma folders_loop_eq:
  "folders_loop env bp fs i g =
     g\<lparr>items := items g @ map (\<lambda>f. fst (createGroup env g bp f)) (drop i fs)\<rparr>"
proof (induction env bp fs i g rule: folders_loop.induct)
  case (1 env basePath fs i catalogGroup)
  show ?case
  proof (cases "i < length fs")
    case True
    then have d: "drop i fs = fs ! i # drop (Suc i) fs"
      by (simp add: Cons_nth_drop_Suc)
    show ?thesis
      using True "1.IH" [OF True]
      by (subst folders_loop.simps) (simp add: d createGroup_snd createGroup_child_items)
  next
    case False
    then show ?thesis by (subst folders_loop.simps) simp
  qed
qed

lemma createMoF_invalid:
  "\<not> (service_type s = ''MapServer'' \<or> service_type s = ''FeatureServer'') \<Longrightarrow> createMapOrFeatureServer env g bp s = (None, g)"
  by (simp add: createMapOrFeatureServer_def Let_def array_indexOf_validServerTypes)

lemma createMoF_child_items:
  "fst (createMapOrFeatureServer env (g\<lparr>items := xs\<rparr>) bp s) = fst (createMapOrFeatureServer env g bp s)"
  by (simp add: createMapOrFeatureServer_def Let_def)

lemma createMoF_valid:
  "service_type s = ''MapServer'' \<or> service_type s = ''FeatureServer'' \<Longrightarrow>
     \<exists>child. createMapOrFeatureServer env g bp s = (Some child, g\<lparr>items := items g @ [child]\<rparr>)"
  by (auto simp: createMapOrFeatureServer_def Let_def array_indexOf_validServerTypes
      add_def)

lemma services_loop_eq:
  "services_loop env bp ss i g =
     g\<lparr>items := items g @
        map (\<lambda>s. the (fst (createMapOrFeatureServer env g bp s))) (filter (\<lambda>s. service_type s = ''MapServer'' \<or> service_type s = ''FeatureServer'') (drop i ss))\<rparr>"
proof (induction env bp ss i g rule: services_loop.induct)
  case (1 env basePath ss i catalogGroup)
  show ?case
  proof (cases "i < length ss")
    case True
    then have d: "drop i ss = ss ! i # drop (Suc i) ss"
      by (simp add: Cons_nth_drop_Suc)
    show ?thesis
    proof (cases "service_type (ss ! i) = ''MapServer'' \<or> service_type (ss ! i) = ''FeatureServer''")
      case v: True
      from createMoF_valid [OF v, of env catalogGroup basePath] obtain child where
        c: "createMapOrFeatureServer env catalogGroup basePath (ss ! i) =
              (Some child, catalogGroup\<lparr>items := items catalogGroup @ [child]\<rparr>)" by blast
      show ?thesis
        using True "1.IH" [OF True] v c
        by (subst services_loop.simps) (simp add: d createMoF_child_items)
    next
      case nv: False
      show ?thesis
        using True "1.IH" [OF True] nv createMoF_invalid [OF nv, of env catalogGroup basePath]
        by (subst services_loop.simps) (simp add: d)
    qed
  next
    case False
    then show ?thesis by (subst services_loop.simps) simp
  qed
qed

lemma loadRest_then_valid:
  assumes "fs \<noteq> None \<or> ss \<noteq> None"
  shows "loadRest_then env (RestDocument fs ss) g =
     (Inr (), g\<lparr>items := items g
         @ map (\<lambda>f. fst (createGroup env g (getBasePath g) f)) (case fs of None \<Rightarrow> [] | Some fl \<Rightarrow> fl)
         @ map (\<lambda>s. the (fst (createMapOrFeatureServer env g (getBasePath g) s)))
             (filter (\<lambda>s. service_type s = ''MapServer'' \<or> service_type s = ''FeatureServer'') (case ss of None \<Rightarrow> [] | Some sl \<Rightarrow> sl))\<rparr>)"
proof -
  have bp: "getBasePath (g\<lparr>items := xs\<rparr>) = getBasePath g" for xs
    by (simp add: getBasePath_def)
  show ?thesis
    using assms
    by (cases fs; cases ss)
      (simp_all add: loadRest_then_def Let_def folders_loop_eq services_loop_eq
        createMoF_child_items)
qed

text \<open>
  Claim C10. When the REST document has \<open>folders\<close> or \<open>services\<close>, the load resolves
  and the children added to the group are one group per folder, in the order of
  \<open>folders\<close>, followed by one group per service whose type is \<open>MapServer\<close> or
  \<open>FeatureServer\<close>, in the order of \<open>services\<close>. A service of any other type is
  skipped: no child, no error, the group untouched. A service of one of the two types
  gets a child of the matching kind at the end of \<open>items\<close>.
\<close>

theorem loadRest_children:
  assumes "loadJson env (cleanAndProxyUrl env g (url g) @ ''?f=json'') = Resolved (RestDocument fs ss)"
    and "fs \<noteq> None \<or> ss \<noteq> None"
  shows "loadRest env g =
     (Resolved (), g\<lparr>items := items g
         @ map (\<lambda>f. fst (createGroup env g (getBasePath g) f)) (case fs of None \<Rightarrow> [] | Some fl \<Rightarrow> fl)
         @ map (\<lambda>s. the (fst (createMapOrFeatureServer env g (getBasePath g) s)))
             (filter (\<lambda>s. service_type s = ''MapServer'' \<or> service_type s = ''FeatureServer'')
                (case ss of None \<Rightarrow> [] | Some sl \<Rightarrow> sl))\<rparr>)
     \<and> (\<forall>h bp s. service_type s \<noteq> ''MapServer'' \<and> service_type s \<noteq> ''FeatureServer'' \<longrightarrow>
           createMapOrFeatureServer env h bp s = (None, h))
     \<and> (\<forall>h bp s. service_type s = ''MapServer'' \<or> service_type s = ''FeatureServer'' \<longrightarrow>
           (\<exists>child. createMapOrFeatureServer env h bp s = (Some child, h\<lparr>items := items h @ [child]\<rparr>)
              \<and> ctor child = (if service_type s = ''MapServer'' then ArcGisMapServerCatalogGroup_ctor
                               else ArcGisFeatureServerCatalogGroup_ctor)))"
proof -
  have a: "loadRest env g = (Resolved (), snd (loadRest_then env (RestDocument fs ss) g))"
    using assms loadRest_then_valid [OF assms(2), of env g]
    by (simp add: loadRest_def Let_def then_st_def otherwise_st_def)
  have b: "createMapOrFeatureServer env h bp s = (None, h)"
    if "service_type s \<noteq> ''MapServer'' \<and> service_type s \<noteq> ''FeatureServer''" for h bp s
    using that createMoF_invalid [of s env h bp] by simp
  have c: "\<exists>child. createMapOrFeatureServer env h bp s = (Some child, h\<lparr>items := items h @ [child]\<rparr>)
              \<and> ctor child = (if service_type s = ''MapServer'' then ArcGisMapServerCatalogGroup_ctor
                               else ArcGisFeatureServerCatalogGroup_ctor)"
    if "service_type s = ''MapServer'' \<or> service_type s = ''FeatureServer''" for h bp s
    using that
    by (auto simp: createMapOrFeatureServer_def Let_def array_indexOf_validServerTypes add_def
        ctor_assign_properties ctor_set_prop split: option.splits)
  show ?thesis
    using a b c loadRest_then_valid [OF assms(2), of env g]
    by simp
qed

text \<open>
  A folder, a MapServer, an ImageServer and a FeatureServer: three children, the
  ImageServer left out.
\<close>

theorem loadRest_children_witness:
  "fst (loadRest (example_env (Resolved example_document)) example_group) = Resolved ()
   \<and> map (\<lambda>c. (ctor c, get_prop c ''name''))
        (items (snd (loadRest (example_env (Resolved example_document)) example_group)))
     = [(ArcGisCatalogGroup_ctor, JString ''Sub A''),
        (ArcGisMapServerCatalogGroup_ctor, JString ''My Roads''),
        (ArcGisFeatureServerCatalogGroup_ctor, JString ''Land Parcels'')]
   \<and> createMapOrFeatureServer (example_env (Resolved example_document)) example_group
        (getBasePath example_group) (example_services ! 1) = (None, example_group)"
proof -
  let ?E = "example_env (Resolved example_document)"
  have h1: "loadJson ?E (cleanAndProxyUrl ?E example_group (url example_group) @ ''?f=json'')
              = Resolved (RestDocument (Some [''Folder/Sub_A'']) (Some example_services))"
    by (simp add: example_env_def example_document_def)
  have h2: "Some [''Folder/Sub_A''] \<noteq> None \<or> Some example_services \<noteq> None"
    by simp
  have t: "service_type (example_services ! 1) \<noteq> ''MapServer''
           \<and> service_type (example_services ! 1) \<noteq> ''FeatureServer''"
    by (simp add: example_services_def)
  have names: "map (\<lambda>c. (ctor c, get_prop c ''name''))
      (map (\<lambda>f. fst (createGroup ?E example_group ''Folder'' f)) [''Folder/Sub_A'']
       @ map (\<lambda>s. the (fst (createMapOrFeatureServer ?E example_group ''Folder'' s)))
           (filter (\<lambda>s. service_type s = ''MapServer'' \<or> service_type s = ''FeatureServer'')
              example_services))
     = [(ArcGisCatalogGroup_ctor, JString ''Sub A''),
        (ArcGisMapServerCatalogGroup_ctor, JString ''My Roads''),
        (ArcGisFeatureServerCatalogGroup_ctor, JString ''Land Parcels'')]"
    by (simp add: example_services_def createGroup_def createMapOrFeatureServer_def Let_def
        removePathFromName_eq get_prop_set_prop ctor_set_prop array_indexOf_validServerTypes
        replaceUnderscores_def example_group_def new_ArcGisCatalogGroup_def)
  have i: "items example_group = []"
    by (simp add: example_group_def)
  from loadRest_children [OF h1 h2, unfolded example_basePath] t names
  show ?thesis
    unfolding example_basePath by (simp add: i)
qed



section \<open>Proofs: BuildShareLink\<close>

subsection \<open>The loop over the keys\<close>






lemma map_of_update_None:
  "map_of (AList.update k None obj) k' = (if k' = k then Some None else map_of obj k')"
  by (simp add: update_conv')

text \<open>One step of the loop, as a function of the mapping.\<close>

lemma eliminate_Cons_cases:
  assumes "eliminate_open_groups (key # keys) obj = Inr final"
  obtains item where "map_of obj key = Some (Some item)"
    and "\<not> truthy (isOpen item) \<or>
         (\<exists>ps. parents item = Some ps \<and> \<not> list_ex (\<lambda>p. \<not> has_entry obj p) ps)"
    and "eliminate_open_groups keys obj = Inr final"
  | item ps where "map_of obj key = Some (Some item)" and "truthy (isOpen item)"
    and "parents item = Some ps" and "list_ex (\<lambda>p. \<not> has_entry obj p) ps"
    and "eliminate_open_groups keys (AList.update key None obj) = Inr final"
  using assms by (auto split: option.splits if_splits)


lemma eliminate_changes:
  "eliminate_open_groups keys obj = Inr final \<Longrightarrow>
     map_of final k = map_of obj k \<or> map_of final k = Some None"
proof (induction keys arbitrary: obj)
  case Nil
  then show ?case by simp
next
  case (Cons key keys)
  from Cons.prems(1) show ?case
  proof (cases rule: eliminate_Cons_cases)
    case (1 item)
    with Cons show ?thesis by auto
  next
    case (2 item ps)
    from Cons.IH [OF 2(5)] show ?thesis
      by (auto simp: map_of_update_None split: if_splits)
  qed
qed

lemma eliminate_has_entry:
  "eliminate_open_groups keys obj = Inr final \<Longrightarrow> has_entry final k \<Longrightarrow> has_entry obj k"
  using eliminate_changes [of keys obj final k] by (auto simp: has_entry_def)





subsection \<open>Whole ancestor chains\<close>






subsection \<open>The mapping built by the reduce\<close>

lemma clear_id_sel [simp]:
  "parents (clear_id item) = parents item"
  "isOpen (clear_id item) = isOpen item"
  "isEnabled (clear_id item) = isEnabled item"
  "properties (clear_id item) = properties item"
  "items_json (clear_id item) = items_json item"
  "id_json (clear_id item) = None"
  by (cases item; simp)+

lemma clear_items_sel [simp]:
  "parents (clear_items item) = parents item"
  "isOpen (clear_items item) = isOpen item"
  "isEnabled (clear_items item) = isEnabled item"
  "properties (clear_items item) = properties item"
  "id_json (clear_items item) = id_json item"
  "items_json (clear_items item) = None"
  by (cases item; simp)+

lemma distinct_reduce_by_id:
  "distinct (map fst soFar) \<Longrightarrow> distinct (map fst (reduce_by_id xs soFar))"
  by (induction xs soFar rule: reduce_by_id.induct) (auto simp: distinct_update)


lemma map_of_reduce_by_id:
  "map_of (reduce_by_id xs soFar) =
     map_of soFar ++ map_of (rev (map (\<lambda>item. (property_key (id_json item), Some (clear_id item))) xs))"
proof (induction xs soFar rule: reduce_by_id.induct)
  case (1 soFar)
  then show ?case by simp
next
  case (2 item rest soFar)
  let ?f = "\<lambda>item. (property_key (id_json item), Some (clear_id item))"
  let ?k = "property_key (id_json item)"
  let ?M = "map_of (rev (map ?f rest))"
  have "map_of (reduce_by_id (item # rest) soFar) =
          map_of (AList.update ?k (Some (clear_id item)) soFar) ++ ?M"
    using "2.IH" by simp
  also have "\<dots> = (map_of soFar ++ [?k \<mapsto> Some (clear_id item)]) ++ ?M"
    by (simp add: update_conv')
  also have "\<dots> = map_of soFar ++ ([?k \<mapsto> Some (clear_id item)] ++ ?M)"
    by simp
  also have "[?k \<mapsto> Some (clear_id item)] ++ ?M = map_of (rev (map ?f (item # rest)))"
    by (simp add: map_of_append)
  finally show ?case .
qed

lemma reduce_by_id_entry:
  assumes "map_of (reduce_by_id xs []) k = Some v"
  shows "\<exists>item. item \<in> set xs \<and> property_key (id_json item) = k \<and> v = Some (clear_id item)"
proof -
  from assms have "map_of (rev (map (\<lambda>item. (property_key (id_json item), Some (clear_id item))) xs)) k = Some v"
    by (simp add: map_of_reduce_by_id)
  then have "(k, v) \<in> set (map (\<lambda>item. (property_key (id_json item), Some (clear_id item))) xs)"
    by (metis map_of_SomeD set_rev)
  then show ?thesis by auto
qed

lemma reduce_by_id_last:
  assumes "xs = before @ item # after"
    and "\<forall>other \<in> set after. property_key (id_json other) \<noteq> property_key (id_json item)"
  shows "map_of (reduce_by_id xs []) (property_key (id_json item)) = Some (Some (clear_id item))"
proof -
  let ?f = "\<lambda>item. (property_key (id_json item), Some (clear_id item))"
  have "map_of (rev (map ?f after)) (property_key (id_json item)) = None"
    using assms(2) by (auto simp: map_of_eq_None_iff image_iff)
  then show ?thesis
    by (simp add: map_of_reduce_by_id assms(1) map_add_def)
qed

lemma distinct_catalogForSharing: "distinct (map fst (catalogForSharing_of serialized))"
  by (simp add: catalogForSharing_of_def distinct_reduce_by_id)

lemma catalogForSharing_entry:
  assumes "map_of (catalogForSharing_of serialized) k = Some v"
  shows "\<exists>item. item \<in> set (flattenCatalog serialized)
           \<and> (truthy (isEnabled item) \<or> truthy (isOpen item))
           \<and> property_key (id_json item) = k \<and> v = Some (clear_id item)"
  using reduce_by_id_entry [OF assms [unfolded catalogForSharing_of_def]] by auto



subsection \<open>Ancestor pruning\<close>



subsection \<open>The walk of the serializer\<close>

lemma flattenCatalog_Cons:
  "flattenCatalog (j # js) = flattenCatalog [j] @ flattenCatalog js"
  by (cases j) (auto split: option.splits)

lemma flattenCatalog_single:
  "flattenCatalog [j] =
     clear_items j # (case items_json j of Some sub \<Rightarrow> flattenCatalog sub | None \<Rightarrow> [])"
  by (cases j) (auto split: option.splits)

lemma flattenCatalog_append:
  "flattenCatalog (xs @ ys) = flattenCatalog xs @ flattenCatalog ys"
proof (induction xs)
  case Nil
  then show ?case by simp
next
  case (Cons x xs)
  then show ?case
    using flattenCatalog_Cons [of x "xs @ ys"] flattenCatalog_Cons [of x xs] by simp
qed

text \<open>What the serializer writes on every node, however deep.\<close>

lemma serialize_nodes:
  "serializeMember options parent ancestors m r = (Some j, r') \<Longrightarrow>
     \<forall>x \<in> set (flattenCatalog [j]).
       parents x \<noteq> None \<and> id_json x \<noteq> None
       \<and> (\<forall>k \<in> fst ` set (properties x). \<exists>m'. keeps_property options k m')"
  "serializeItems options parent' ancestors' ms r = (js, r') \<Longrightarrow>
     \<forall>x \<in> set (flattenCatalog js).
       parents x \<noteq> None \<and> id_json x \<noteq> None
       \<and> (\<forall>k \<in> fst ` set (properties x). \<exists>m'. keeps_property options k m')"
proof (induction options parent ancestors m r and options parent' ancestors' ms r
    arbitrary: j r' and js r' rule: serializeMember_serializeItems.induct)
  case (1 options parent ancestors uid us u en opn others its r)
  let ?me = "CatalogMember uid us u en opn others its"
  obtain b r1 where f: "itemFilter options \<lparr>item_self = ?me, item_parent = parent\<rparr> r = (b, r1)"
    by (cases "itemFilter options \<lparr>item_self = ?me, item_parent = parent\<rparr> r")
  with "1.prems" have b: "b = True" by (cases b) auto
  show ?case
  proof (cases "\<exists>children. its = Some children \<and> keeps_property options ''items'' ?me")
    case True
    then obtain children where c: "its = Some children" "keeps_property options ''items'' ?me"
      by blast
    obtain js r2 where s: "serializeItems options ?me (ancestors @ [uid]) children r1 = (js, r2)"
      by (cases "serializeItems options ?me (ancestors @ [uid]) children r1")
    from "1.IH" [OF f [symmetric] b refl refl c(1) c(2) s]
    have ih: "\<forall>x \<in> set (flattenCatalog js).
       parents x \<noteq> None \<and> id_json x \<noteq> None
       \<and> (\<forall>k \<in> fst ` set (properties x). \<exists>m'. keeps_property options k m')" .
    from "1.prems" f b c s have j: "j = MemberJson (Some uid) (Some ancestors)
        (if keeps_property options ''isEnabled'' ?me then en else None)
        (if keeps_property options ''isOpen'' ?me then opn else None)
        (Some js) (filter (\<lambda>kv. keeps_property options (fst kv) ?me) others)"
      by (simp add: Let_def)
    show ?thesis
      unfolding flattenCatalog_single using ih by (auto simp: j)
  next
    case False
    with "1.prems" f b have j: "j = MemberJson (Some uid) (Some ancestors)
        (if keeps_property options ''isEnabled'' ?me then en else None)
        (if keeps_property options ''isOpen'' ?me then opn else None)
        None (filter (\<lambda>kv. keeps_property options (fst kv) ?me) others)"
      by (auto simp: Let_def split: option.splits if_splits)
    show ?thesis
      unfolding flattenCatalog_single by (auto simp: j)
  qed
next
  case (2 options parent ancestors r)
  then show ?case by simp
next
  case (3 options parent ancestors m ms r)
  obtain x r1 where m: "serializeMember options (Some parent) ancestors m r = (x, r1)"
    by (cases "serializeMember options (Some parent) ancestors m r")
  show ?case
  proof (cases x)
    case None
    with "3.prems" m have "serializeItems options parent ancestors ms r1 = (js, r')" by simp
    from "3.IH"(2) [OF m [symmetric] None this] show ?thesis .
  next
    case (Some j)
    obtain js' r2 where s: "serializeItems options parent ancestors ms r1 = (js', r2)"
      by (cases "serializeItems options parent ancestors ms r1")
    with "3.prems" m Some have js: "js = j # js'" by simp
    from "3.IH"(1) [OF m [unfolded Some]] "3.IH"(3) [OF m [symmetric] Some s]
    show ?thesis
      unfolding js flattenCatalog_Cons [of j js'] by auto
  qed
qed

lemma keeps_property_None: "propertyFilter options = None \<Longrightarrow> keeps_property options p m"
  by (simp add: keeps_property_def)

text \<open>
  The walk under a filter that answers by \<open>accept\<close> and pushes the members that
  \<open>allowed\<close> refuses: what is written and what is pushed.
\<close>

lemma serialize_logging:
  fixes options :: "catalog_item list serialize_options"
  shows "\<forall>item rej. itemFilter options item rej =
                (accept item, if allowed item then rej else rej @ [item]) \<Longrightarrow>
     propertyFilter options = None \<Longrightarrow>
     serializeMember options parent ancestors m r = (oj, r') \<Longrightarrow>
       r' = r @ filter (\<lambda>item. \<not> allowed item) (visited_member accept parent m)
       \<and> map id_json (case oj of Some j \<Rightarrow> flattenCatalog [j] | None \<Rightarrow> []) =
           map (\<lambda>item. Some (uniqueId (item_self item)))
             (filter accept (visited_member accept parent m))
       \<and> (oj = None \<longleftrightarrow> \<not> accept \<lparr>item_self = m, item_parent = parent\<rparr>)"
    and "\<forall>item rej. itemFilter options item rej =
                (accept item, if allowed item then rej else rej @ [item]) \<Longrightarrow>
     propertyFilter options = None \<Longrightarrow>
     serializeItems options parent' ancestors' ms r = (js, r') \<Longrightarrow>
       r' = r @ filter (\<lambda>item. \<not> allowed item) (visited_items accept parent' ms)
       \<and> map id_json (flattenCatalog js) =
           map (\<lambda>item. Some (uniqueId (item_self item)))
             (filter accept (visited_items accept parent' ms))"
proof (induction options parent ancestors m r and options parent' ancestors' ms r
    arbitrary: oj r' and js r' rule: serializeMember_serializeItems.induct)
  case (1 options parent ancestors uid us u en opn others its r)
  let ?me = "CatalogMember uid us u en opn others its"
  let ?item = "\<lparr>item_self = ?me, item_parent = parent\<rparr>"
  let ?r1 = "if allowed ?item then r else r @ [?item]"
  have fi: "itemFilter options ?item r = (accept ?item, ?r1)" by (simp add: "1.prems"(1))
  show ?case
  proof (cases "accept ?item")
    case False
    with "1.prems"(3) fi show ?thesis by auto
  next
    case acc: True
    show ?thesis
    proof (cases its)
      case None
      with "1.prems"(3) fi acc show ?thesis
        by (auto simp: Let_def flattenCatalog_single)
    next
      case (Some children)
      have k: "keeps_property options ''items'' ?me"
        by (rule keeps_property_None [OF "1.prems"(2)])
      obtain js r2 where s: "serializeItems options ?me (ancestors @ [uid]) children ?r1 = (js, r2)"
        by (cases "serializeItems options ?me (ancestors @ [uid]) children ?r1")
      from "1.IH" [OF fi [symmetric] acc [THEN eqTrueI] refl refl Some k "1.prems"(1,2) s]
      have ih: "r2 = ?r1 @ filter (\<lambda>item. \<not> allowed item) (visited_items accept ?me children)"
        "map id_json (flattenCatalog js) =
           map (\<lambda>item. Some (uniqueId (item_self item)))
             (filter accept (visited_items accept ?me children))"
        by simp_all
      from "1.prems"(3) fi acc Some k s
      have oj: "oj = Some (MemberJson (Some uid) (Some ancestors)
          (if keeps_property options ''isEnabled'' ?me then en else None)
          (if keeps_property options ''isOpen'' ?me then opn else None)
          (Some js) (filter (\<lambda>kv. keeps_property options (fst kv) ?me) others))"
        and r': "r' = r2"
        by (simp_all add: Let_def)
      show ?thesis
        using ih acc Some by (simp add: oj r' flattenCatalog_single)
    qed
  qed
next
  case (2 options parent ancestors r)
  then show ?case by simp
next
  case (3 options parent ancestors m ms r)
  obtain x r1 where m: "serializeMember options (Some parent) ancestors m r = (x, r1)"
    by (cases "serializeMember options (Some parent) ancestors m r")
  from "3.IH"(1) [OF "3.prems"(1,2) m]
  have ih1: "r1 = r @ filter (\<lambda>item. \<not> allowed item) (visited_member accept (Some parent) m)"
    "map id_json (case x of Some j \<Rightarrow> flattenCatalog [j] | None \<Rightarrow> []) =
           map (\<lambda>item. Some (uniqueId (item_self item)))
             (filter accept (visited_member accept (Some parent) m))"
    by simp_all
  show ?case
  proof (cases x)
    case None
    with "3.prems"(3) m have s: "serializeItems options parent ancestors ms r1 = (js, r')" by simp
    from "3.IH"(2) [OF m [symmetric] None "3.prems"(1,2) s] ih1 None
    show ?thesis by simp
  next
    case (Some j)
    obtain js' r2 where s: "serializeItems options parent ancestors ms r1 = (js', r2)"
      by (cases "serializeItems options parent ancestors ms r1")
    with "3.prems"(3) m Some have js: "js = j # js'" and r': "r' = r2" by simp_all
    from "3.IH"(3) [OF m [symmetric] Some "3.prems"(1,2) s] ih1 Some
    show ?thesis
      unfolding js r' flattenCatalog_Cons [of j js'] by simp
  qed
qed

subsection \<open>User-added catalog\<close>

lemma rememberRejections_eq:
  "rememberRejections f item rej = (f item, if f item then rej else rej @ [item])"
  by (simp add: rememberRejections_def Let_def)

lemma user_added_chain:
  "combineFilters
     [rememberRejections nld, pure_filter userSuppliedOnly, pure_filter parent_has_no_url] item rej
   = (nld item \<and> isUserSupplied (item_self item) \<and> parent_has_no_url item,
      if nld item then rej else rej @ [item])"
  by (cases "nld item"; cases "isUserSupplied (item_self item)"; cases "parent_has_no_url item")
    (simp_all add: rememberRejections_eq pure_filter_def userSuppliedOnly_def)

text \<open>
  Claim C3 (as amended). The nodes of the catalog fragment of \<open>addUserAddedCatalog\<close>
  are, in order, the members that the walk reaches and that pass the three filters:
  without local data, user-supplied, and with no parent or a parent whose URL is
  undefined or empty. The fragment is pushed when it is not empty. The rejections
  returned are the members reached that the no-local-data filter refuses, in the order
  of the walk, and the remembering filter answers as the filter it wraps.
\<close>

theorem user_added_catalog:
  "\<exists>userAddedCatalog.
      addUserAddedCatalog env terria initSources =
        (if userAddedCatalog \<noteq> []
         then initSources @ [CatalogFragment userAddedCatalog] else initSources,
         filter (\<lambda>item. \<not> noLocalData env item)
           (visited (passes_user_added_filters env) (catalog_group terria)))
    \<and> map id_json (flattenCatalog userAddedCatalog) =
        map (\<lambda>item. Some (uniqueId (item_self item)))
          (filter (passes_user_added_filters env)
             (visited (passes_user_added_filters env) (catalog_group terria)))
    \<and> (\<forall>item. passes_user_added_filters env item =
          (noLocalData env item \<and> isUserSupplied (item_self item)
           \<and> (item_parent item = None
               \<or> (\<exists>parent. item_parent item = Some parent
                     \<and> (member_url parent = None \<or> member_url parent = Some [])))))
    \<and> (\<forall>item rej. rememberRejections (noLocalData env) item rej =
          (noLocalData env item, if noLocalData env item then rej else rej @ [item]))"
proof -
  let ?options = "\<lparr>itemFilter = combineFilters
                 [rememberRejections (noLocalData env),
                  pure_filter userSuppliedOnly,
                  pure_filter parent_has_no_url],
              propertyFilter = None\<rparr> :: catalog_item list serialize_options"
  let ?children = "case member_items (catalog_group terria) of Some children \<Rightarrow> children | None \<Rightarrow> []"
  obtain js r where s: "serializeItems ?options (catalog_group terria) [] ?children [] = (js, r)"
    by (cases "serializeItems ?options (catalog_group terria) [] ?children []")
  have f: "\<forall>item rej. itemFilter ?options item rej =
      (passes_user_added_filters env item, if noLocalData env item then rej else rej @ [item])"
    by (simp add: user_added_chain passes_user_added_filters_def userSuppliedOnly_def
        del: combineFilters.simps)
  have pf: "propertyFilter ?options = None" by simp
  from serialize_logging(2) [OF f pf s]
  have r: "r = filter (\<lambda>item. \<not> noLocalData env item)
              (visited (passes_user_added_filters env) (catalog_group terria))"
    and ids: "map id_json (flattenCatalog js) =
        map (\<lambda>item. Some (uniqueId (item_self item)))
          (filter (passes_user_added_filters env)
             (visited (passes_user_added_filters env) (catalog_group terria)))"
    by (simp_all add: visited_def)
  have a: "addUserAddedCatalog env terria initSources =
        (if js \<noteq> [] then initSources @ [CatalogFragment js] else initSources, r)"
    using s by (simp add: addUserAddedCatalog_def serializeToJson_def)
  have c: "passes_user_added_filters env item =
          (noLocalData env item \<and> isUserSupplied (item_self item)
           \<and> (item_parent item = None
               \<or> (\<exists>parent. item_parent item = Some parent
                     \<and> (member_url parent = None \<or> member_url parent = Some []))))" for item
    by (auto simp: passes_user_added_filters_def userSuppliedOnly_def parent_has_no_url_def
        truthy_string_def split: option.splits)
  from a r ids c rememberRejections_eq [of "noLocalData env"] show ?thesis
    by blast
qed

text \<open>
  A user-added group and a local file at the top level: the group is in the fragment,
  the file is the one rejection.
\<close>

theorem user_added_catalog_witness:
  "addUserAddedCatalog example_local_env (example_terria [example_user_group, example_local]) [] =
     ([CatalogFragment
         [MemberJson (Some ''User Group'') (Some []) None (Some True) (Some [])
            [(''name'', JString ''User Group'')]]],
      [\<lparr>item_self = example_local,
        item_parent = Some (example_root [example_user_group, example_local])\<rparr>])"
proof -
  let ?E = example_local_env
  let ?T = "example_terria [example_user_group, example_local]"
  from user_added_catalog [of ?E ?T "[]"] obtain uac where
    a: "addUserAddedCatalog ?E ?T [] =
        (if uac \<noteq> [] then [] @ [CatalogFragment uac] else [],
         filter (\<lambda>item. \<not> noLocalData ?E item)
           (visited (passes_user_added_filters ?E) (catalog_group ?T)))"
    by blast
  have v: "filter (\<lambda>item. \<not> noLocalData ?E item)
           (visited (passes_user_added_filters ?E) (catalog_group ?T)) =
      [\<lparr>item_self = example_local,
        item_parent = Some (example_root [example_user_group, example_local])\<rparr>]"
    by code_simp
  have f: "fst (addUserAddedCatalog ?E ?T []) =
     [CatalogFragment
         [MemberJson (Some ''User Group'') (Some []) None (Some True) (Some [])
            [(''name'', JString ''User Group'')]]]"
    by code_simp
  from a v have "snd (addUserAddedCatalog ?E ?T []) =
      [\<lparr>item_self = example_local,
        item_parent = Some (example_root [example_user_group, example_local])\<rparr>]"
    by simp
  with f show ?thesis by (simp add: prod_eq_iff)
qed

text \<open>
  Claim C3 as stated fails. The item is user-supplied, has no local data, and its
  parent's URL is not the one the item comes from; the spec's rule accepts it. The
  parent has a URL, so the third filter refuses the item: the fragment holds the group
  with no items.
\<close>

theorem user_added_catalog_counterexample:
  "spec_user_added example_share_env \<lparr>item_self = example_csv, item_parent = Some example_user_group\<rparr>
   \<and> fst (addUserAddedCatalog example_share_env (example_terria [example_user_group]) []) =
       [CatalogFragment
          [MemberJson (Some ''User Group'') (Some []) None (Some True) (Some [])
             [(''name'', JString ''User Group'')]]]"
  by code_simp

subsection \<open>Shared members\<close>

lemma shared_property_filter_eq:
  "shared_property_filter env p m = (sharedOnly env p m \<and> p \<noteq> ''name'')"
  by (simp add: shared_property_filter_def pure_filter_def split: bool.splits)

lemma shared_serialized_nodes:
  assumes "x \<in> set (flattenCatalog (shared_serialized env terria))"
  shows "parents x \<noteq> None \<and> (\<exists>k. id_json x = Some k)
       \<and> ''name'' \<notin> fst ` set (properties x)
       \<and> (\<forall>p \<in> fst ` set (properties x). \<exists>m. sharedOnly env p m)"
proof -
  let ?options = "\<lparr>itemFilter = combineFilters [pure_filter (noLocalData env)],
             propertyFilter = Some (shared_property_filter env)\<rparr> :: unit serialize_options"
  let ?children = "case member_items (catalog_group terria) of Some children \<Rightarrow> children | None \<Rightarrow> []"
  obtain js r where s: "serializeItems ?options (catalog_group terria) [] ?children () = (js, r)"
    by (cases "serializeItems ?options (catalog_group terria) [] ?children ()")
  then have js: "shared_serialized env terria = js"
    by (simp add: shared_serialized_def serializeToJson_def)
  have k: "keeps_property ?options p m = (sharedOnly env p m \<and> p \<noteq> ''name'')" for p m
    by (simp add: keeps_property_def shared_property_filter_eq)
  from serialize_nodes(2) [OF s] assms [unfolded js]
  have "parents x \<noteq> None \<and> id_json x \<noteq> None
       \<and> (\<forall>p \<in> fst ` set (properties x). \<exists>m'. keeps_property ?options p m')"
    by blast
  then show ?thesis
    unfolding k by auto
qed

text \<open>
  The serializer writes whole ancestor chains: below the chain it was handed, the
  \<open>parents\<close> of a node name nodes that it wrote too, each with a shorter chain.
\<close>

lemma chains_union:
  assumes "\<forall>x \<in> A. \<exists>q. P x q \<and> (\<forall>p \<in> set q. \<exists>y \<in> A. Q y p q)"
    and "\<forall>x \<in> B. \<exists>q. P x q \<and> (\<forall>p \<in> set q. \<exists>y \<in> B. Q y p q)"
  shows "\<forall>x \<in> A \<union> B. \<exists>q. P x q \<and> (\<forall>p \<in> set q. \<exists>y \<in> A \<union> B. Q y p q)"
proof
  fix x
  assume "x \<in> A \<union> B"
  then show "\<exists>q. P x q \<and> (\<forall>p \<in> set q. \<exists>y \<in> A \<union> B. Q y p q)"
  proof
    assume "x \<in> A"
    with assms(1) obtain q where "P x q" "\<forall>p \<in> set q. \<exists>y \<in> A. Q y p q" by blast
    then show ?thesis by blast
  next
    assume "x \<in> B"
    with assms(2) obtain q where "P x q" "\<forall>p \<in> set q. \<exists>y \<in> B. Q y p q" by blast
    then show ?thesis by blast
  qed
qed

lemma serialize_chains:
  "serializeMember options parent ancestors m r = (Some j, r') \<Longrightarrow>
     \<forall>x \<in> set (flattenCatalog [j]).
       \<exists>q. parents x = Some (ancestors @ q)
         \<and> (\<forall>p \<in> set q. \<exists>y \<in> set (flattenCatalog [j]).
               id_json y = Some p \<and> (\<exists>q'. parents y = Some (ancestors @ q') \<and> set q' \<subseteq> set q))"
  "serializeItems options parent' ancestors' ms r = (js, r') \<Longrightarrow>
     \<forall>x \<in> set (flattenCatalog js).
       \<exists>q. parents x = Some (ancestors' @ q)
         \<and> (\<forall>p \<in> set q. \<exists>y \<in> set (flattenCatalog js).
               id_json y = Some p \<and> (\<exists>q'. parents y = Some (ancestors' @ q') \<and> set q' \<subseteq> set q))"
proof (induction options parent ancestors m r and options parent' ancestors' ms r
    arbitrary: j r' and js r' rule: serializeMember_serializeItems.induct)
  case (1 options parent ancestors uid us u en opn others its r)
  let ?me = "CatalogMember uid us u en opn others its"
  obtain b r1 where f: "itemFilter options \<lparr>item_self = ?me, item_parent = parent\<rparr> r = (b, r1)"
    by (cases "itemFilter options \<lparr>item_self = ?me, item_parent = parent\<rparr> r")
  with "1.prems" have b: "b = True" by (cases b) auto
  show ?case
  proof (cases "\<exists>children. its = Some children \<and> keeps_property options ''items'' ?me")
    case True
    then obtain children where c: "its = Some children" "keeps_property options ''items'' ?me"
      by blast
    obtain js r2 where s: "serializeItems options ?me (ancestors @ [uid]) children r1 = (js, r2)"
      by (cases "serializeItems options ?me (ancestors @ [uid]) children r1")
    from "1.IH" [OF f [symmetric] b refl refl c(1) c(2) s]
    have ih: "\<forall>x \<in> set (flattenCatalog js).
       \<exists>q. parents x = Some ((ancestors @ [uid]) @ q)
         \<and> (\<forall>p \<in> set q. \<exists>y \<in> set (flattenCatalog js).
               id_json y = Some p \<and> (\<exists>q'. parents y = Some ((ancestors @ [uid]) @ q') \<and> set q' \<subseteq> set q))" .
    from "1.prems" f b c s have j: "j = MemberJson (Some uid) (Some ancestors)
        (if keeps_property options ''isEnabled'' ?me then en else None)
        (if keeps_property options ''isOpen'' ?me then opn else None)
        (Some js) (filter (\<lambda>kv. keeps_property options (fst kv) ?me) others)"
      by (simp add: Let_def)
    have fl: "flattenCatalog [j] = clear_items j # flattenCatalog js"
      by (simp add: flattenCatalog_single j)
    have top: "id_json (clear_items j) = Some uid" "parents (clear_items j) = Some (ancestors @ [])"
      by (simp_all add: j)
    show ?thesis
    proof
      fix x
      assume "x \<in> set (flattenCatalog [j])"
      then consider "x = clear_items j" | "x \<in> set (flattenCatalog js)"
        by (auto simp: fl)
      then show "\<exists>q. parents x = Some (ancestors @ q)
         \<and> (\<forall>p \<in> set q. \<exists>y \<in> set (flattenCatalog [j]).
               id_json y = Some p \<and> (\<exists>q'. parents y = Some (ancestors @ q') \<and> set q' \<subseteq> set q))"
      proof cases
        case 1
        with top(2) have "parents x = Some (ancestors @ [])" by simp
        then show ?thesis by (intro exI [of _ "[]"]) simp
      next
        case 2
        with ih obtain q where q: "parents x = Some ((ancestors @ [uid]) @ q)"
          "\<forall>p \<in> set q. \<exists>y \<in> set (flattenCatalog js).
               id_json y = Some p \<and> (\<exists>q'. parents y = Some ((ancestors @ [uid]) @ q') \<and> set q' \<subseteq> set q)"
          by blast
        have "\<exists>y \<in> set (flattenCatalog [j]).
               id_json y = Some p \<and> (\<exists>q'. parents y = Some (ancestors @ q') \<and> set q' \<subseteq> set (uid # q))"
          if "p \<in> set (uid # q)" for p
        proof (cases "p = uid")
          case True
          have "clear_items j \<in> set (flattenCatalog [j])" by (simp add: fl)
          moreover have "set [] \<subseteq> set (uid # q)" by simp
          ultimately show ?thesis using top True by blast
        next
          case False
          with that have "p \<in> set q" by simp
          with q(2) obtain y q' where y: "y \<in> set (flattenCatalog js)" "id_json y = Some p"
            "parents y = Some ((ancestors @ [uid]) @ q')" "set q' \<subseteq> set q" by blast
          from y(1) have "y \<in> set (flattenCatalog [j])" by (simp add: fl)
          moreover from y(3) have "parents y = Some (ancestors @ (uid # q'))" by simp
          moreover from y(4) have "set (uid # q') \<subseteq> set (uid # q)" by auto
          ultimately show ?thesis using y(2) by blast
        qed
        moreover from q(1) have "parents x = Some (ancestors @ (uid # q))" by simp
        ultimately show ?thesis by blast
      qed
    qed
  next
    case False
    with "1.prems" f b have j: "j = MemberJson (Some uid) (Some ancestors)
        (if keeps_property options ''isEnabled'' ?me then en else None)
        (if keeps_property options ''isOpen'' ?me then opn else None)
        None (filter (\<lambda>kv. keeps_property options (fst kv) ?me) others)"
      by (auto simp: Let_def split: option.splits if_splits)
    have "parents (clear_items j) = Some (ancestors @ [])" by (simp add: j)
    moreover have "flattenCatalog [j] = [clear_items j]" by (simp add: flattenCatalog_single j)
    ultimately have "\<exists>q. parents x = Some (ancestors @ q)
         \<and> (\<forall>p \<in> set q. \<exists>y \<in> set (flattenCatalog [j]).
               id_json y = Some p \<and> (\<exists>q'. parents y = Some (ancestors @ q') \<and> set q' \<subseteq> set q))"
      if "x \<in> set (flattenCatalog [j])" for x
      using that by (intro exI [of _ "[]"]) simp
    then show ?thesis by blast
  qed
next
  case (2 options parent ancestors r)
  then show ?case by simp
next
  case (3 options parent ancestors m ms r)
  obtain x r1 where m: "serializeMember options (Some parent) ancestors m r = (x, r1)"
    by (cases "serializeMember options (Some parent) ancestors m r")
  show ?case
  proof (cases x)
    case None
    with "3.prems" m have "serializeItems options parent ancestors ms r1 = (js, r')" by simp
    from "3.IH"(2) [OF m [symmetric] None this] show ?thesis .
  next
    case (Some j)
    obtain js' r2 where s: "serializeItems options parent ancestors ms r1 = (js', r2)"
      by (cases "serializeItems options parent ancestors ms r1")
    with "3.prems" m Some have js: "js = j # js'" by simp
    have fl: "set (flattenCatalog js) = set (flattenCatalog [j]) \<union> set (flattenCatalog js')"
      unfolding js flattenCatalog_Cons [of j js'] by simp
    from "3.IH"(1) [OF m [unfolded Some]] "3.IH"(3) [OF m [symmetric] Some s]
    show ?thesis
      unfolding fl by (rule chains_union)
  qed
qed

lemma shared_serialized_closed:
  assumes d: "distinct (map id_json (flattenCatalog (shared_serialized env terria)))"
  shows "ancestor_closed (catalogForSharing_of (shared_serialized env terria))"
proof -
  let ?J = "shared_serialized env terria"
  let ?obj = "catalogForSharing_of ?J"
  let ?options = "\<lparr>itemFilter = combineFilters [pure_filter (noLocalData env)],
             propertyFilter = Some (shared_property_filter env)\<rparr> :: unit serialize_options"
  let ?children = "case member_items (catalog_group terria) of Some children \<Rightarrow> children | None \<Rightarrow> []"
  obtain js r where s: "serializeItems ?options (catalog_group terria) [] ?children () = (js, r)"
    by (cases "serializeItems ?options (catalog_group terria) [] ?children ()")
  then have js: "?J = js"
    by (simp add: shared_serialized_def serializeToJson_def)
  from serialize_chains(2) [OF s]
  have chains: "\<forall>x \<in> set (flattenCatalog ?J).
       \<exists>q. parents x = Some q
         \<and> (\<forall>p \<in> set q. \<exists>y \<in> set (flattenCatalog ?J).
               id_json y = Some p \<and> (\<exists>q'. parents y = Some q' \<and> set q' \<subseteq> set q))"
    unfolding js by simp
  have inj: "y = y'" if "y \<in> set (flattenCatalog ?J)" "y' \<in> set (flattenCatalog ?J)"
    "id_json y = id_json y'" for y y'
    using d that by (meson distinct_map inj_onD)
  have main: "set ps' \<subseteq> set ps"
    if "map_of ?obj k = Some (Some e)" "parents e = Some ps" "p \<in> set ps"
      "map_of ?obj p = Some (Some e')" "parents e' = Some ps'" for k e ps p e' ps'
  proof -
    from catalogForSharing_entry [OF that(1)] obtain x where
      x: "x \<in> set (flattenCatalog ?J)" "e = clear_id x" by auto
    from catalogForSharing_entry [OF that(4)] obtain y' where
      y': "y' \<in> set (flattenCatalog ?J)" "property_key (id_json y') = p" "e' = clear_id y'" by auto
    from shared_serialized_nodes [OF y'(1)] y'(2) have idy': "id_json y' = Some p"
      by (auto simp: property_key_def)
    have "\<exists>y q'. y \<in> set (flattenCatalog ?J) \<and> id_json y = Some p \<and> parents y = Some q'
             \<and> set q' \<subseteq> set ps"
    proof -
      from chains x(1) obtain q where q: "parents x = Some q"
        "\<forall>p \<in> set q. \<exists>y \<in> set (flattenCatalog ?J).
               id_json y = Some p \<and> (\<exists>q'. parents y = Some q' \<and> set q' \<subseteq> set q)"
        by blast
      from q(1) that(2) x(2) have "q = ps" by simp
      with q(2) that(3) show ?thesis by blast
    qed
    then obtain y q' where
      y: "y \<in> set (flattenCatalog ?J)" "id_json y = Some p" "parents y = Some q'" "set q' \<subseteq> set ps"
      by blast
    from inj [OF y(1) y'(1)] y(2) idy' have "y = y'" by simp
    with y(3,4) y'(3) that(5) show ?thesis by simp
  qed
  show ?thesis
    unfolding ancestor_closed_def list_all_iff
  proof (intro ballI)
    fix kv
    assume kv: "kv \<in> set ?obj"
    have m: "map_of ?obj (fst kv) = Some (snd kv)"
      using kv distinct_catalogForSharing [of ?J] by (metis map_of_is_SomeI prod.collapse)
    show "case snd kv of None \<Rightarrow> True
       | Some e \<Rightarrow>
           (case parents e of None \<Rightarrow> True
            | Some ps \<Rightarrow>
                \<forall>p \<in> set ps.
                  case map_of ?obj p of
                    Some (Some e') \<Rightarrow>
                      (case parents e' of Some ps' \<Rightarrow> \<forall>q \<in> set ps'. q \<in> set ps | None \<Rightarrow> True)
                  | _ \<Rightarrow> True)"
    proof (cases "snd kv")
      case None
      then show ?thesis by simp
    next
      case (Some e)
      note e = this
      show ?thesis
      proof (cases "parents e")
        case None
        with e show ?thesis by simp
      next
        case (Some ps)
        note ps = this
        have "case map_of ?obj p of
                    Some (Some e') \<Rightarrow>
                      (case parents e' of Some ps' \<Rightarrow> \<forall>q \<in> set ps'. q \<in> set ps | None \<Rightarrow> True)
                  | _ \<Rightarrow> True" if p: "p \<in> set ps" for p
        proof (cases "map_of ?obj p")
          case None
          then show ?thesis by simp
        next
          case (Some oe)
          note oe = this
          show ?thesis
          proof (cases oe)
            case None
            with oe show ?thesis by simp
          next
            case (Some e')
            note e' = this
            show ?thesis
            proof (cases "parents e'")
              case None
              with oe e' show ?thesis by simp
            next
              case (Some ps')
              from m e have "map_of ?obj (fst kv) = Some (Some e)" by simp
              from main [OF this ps p _ Some] oe e' have "set ps' \<subseteq> set ps" by simp
              with oe e' Some show ?thesis by auto
            qed
          qed
        qed
        with e ps show ?thesis by simp
      qed
    qed
  qed
qed




subsection \<open>Picked features\<close>

text \<open>
  Claim C9. Without picked features nothing is pushed. Otherwise the fragment pushed has
  as \<open>entities\<close>, in order, one record per picked feature that has no imagery layer:
  its name and \<open>hashEntity\<close> of it and the clock. The features with an imagery layer
  account for the rest of the picked features and leave no record.
\<close>

theorem picked_entities:
  "(pickedFeatures terria = None \<or> (\<exists>picked. pickedFeatures terria = Some picked \<and> features picked = [])
      \<longrightarrow> addFeaturePicking env terria initSources = initSources)
   \<and> (\<forall>picked. pickedFeatures terria = Some picked \<and> features picked \<noteq> [] \<longrightarrow>
        (\<exists>fragment.
           addFeaturePicking env terria initSources = initSources @ [PickedFeaturesFragment fragment]
         \<and> entities fragment =
             map (\<lambda>entity. \<lparr>ref_name = feature_name entity,
                            ref_hash = hashEntity env entity (clock_currentTime terria)\<rparr>)
               (filter (\<lambda>feature. imageryLayer feature = None) (features picked))
         \<and> length (entities fragment) + length (filter (\<lambda>feature. imageryLayer feature \<noteq> None) (features picked))
             = length (features picked)))"
proof -
  have l: "length (filter P xs) + length (filter (\<lambda>x. \<not> P x) xs) = length xs" for P and xs :: "'a list"
    by (induction xs) auto
  show ?thesis
    using l [of "\<lambda>feature. imageryLayer feature = None"]
    by (auto simp: addFeaturePicking_def Let_def split: option.splits)
qed

text \<open>Two vector features around a raster one: two records.\<close>

theorem picked_entities_witness:
  "\<exists>fragment.
     addFeaturePicking example_hash_env ((example_terria [])\<lparr>pickedFeatures := Some example_picked\<rparr>) []
       = [PickedFeaturesFragment fragment]
   \<and> entities fragment =
       [\<lparr>ref_name = JString ''Well 1'', ref_hash = 1\<rparr>, \<lparr>ref_name = JString ''Well 2'', ref_hash = 3\<rparr>]"
proof -
  let ?T = "(example_terria [])\<lparr>pickedFeatures := Some example_picked\<rparr>"
  have h: "pickedFeatures ?T = Some example_picked \<and> features example_picked \<noteq> []"
    by (simp add: example_picked_def)
  have e: "map (\<lambda>entity. \<lparr>ref_name = feature_name entity,
                            ref_hash = hashEntity example_hash_env entity (clock_currentTime ?T)\<rparr>)
               (filter (\<lambda>feature. imageryLayer feature = None) (features example_picked))
        = [\<lparr>ref_name = JString ''Well 1'', ref_hash = 1\<rparr>, \<lparr>ref_name = JString ''Well 2'', ref_hash = 3\<rparr>]"
    by (simp add: example_picked_def example_hash_env_def)
  from picked_entities [of ?T example_hash_env "[]"] h e show ?thesis
    by auto
qed

subsection \<open>Share links\<close>

lemma encode_start: "encodeQuery ''start'' = ''start''" by code_simp

lemma encode_key: "encodeQuery ''key'' = ''key''" by code_simp

lemma unique_values_Cons: "unique_values [] (v # vs) = v # unique_values [v] vs"
  by simp

text \<open>The query after the white list has been gone through.\<close>

lemma user_properties_query:
  "\<exists>vs. uri_query (add_user_properties userPropWhiteList terria
                     (set_search [(''start'', [json])] u)) =
         (if vs = [] then [(''start'', [json])] else [(''start'', [json]), (''key'', vs)])"
proof -
  have ne: "''start'' \<noteq> ''key''" by simp
  show ?thesis
    by (cases "map_of (userProperties terria) ''hideExplorerPanel''";
        cases "map_of (userProperties terria) ''activeTabId''")
      (auto simp: userPropWhiteList_def addSearch_def set_search_def addQuery_def)
qed

lemma buildQuery_start:
  "buildQuery (if vs = [] then [(''start'', [json])] else [(''start'', [json]), (''key'', vs)]) =
     ''start='' @ encodeQuery json @
       (if vs = [] then []
        else concat (map (\<lambda>v. ''&key='' @ encodeQuery v) (unique_values [] vs)))"
  by (simp add: buildQuery_def substring_def encode_start encode_key)

lemma key_part_shape:
  "vs \<noteq> [] \<Longrightarrow> prefix ''&key='' (concat (map (\<lambda>v. ''&key='' @ encodeQuery v) (unique_values [] vs)))"
  by (cases vs) simp_all

lemma add_user_properties_base: "uri_base (add_user_properties ks t u) = uri_base u"
  by (induction ks t u rule: add_user_properties.induct) (simp_all add: addSearch_def)

lemma final_link:
  "q \<noteq> [] \<Longrightarrow> hd q \<noteq> CHR ''#'' \<Longrightarrow>
     uri_toString (clear_query (set_fragment q u)) = uri_base u @ ''#'' @ q"
  by (simp add: uri_toString_def clear_query_def set_fragment_def query_string_def
      buildQuery_def substring_def)

lemma buildShareLink_shape:
  assumes "getShareData env terria = Inr shareData"
  shows "\<exists>rest. buildShareLink env terria =
           Inr (uri_base (window_location env) @ ''#start='' @ encodeQuery (stringify env shareData) @ rest)
         \<and> (rest = [] \<or> prefix ''&key='' rest)"
proof -
  let ?json = "stringify env shareData"
  let ?u0 = "set_search [(''start'', [?json])] (set_fragment [] (window_location env))"
  let ?u1 = "add_user_properties userPropWhiteList terria ?u0"
  from user_properties_query [of terria ?json "set_fragment [] (window_location env)"]
  obtain vs where q: "uri_query ?u1 =
      (if vs = [] then [(''start'', [?json])] else [(''start'', [?json]), (''key'', vs)])"
    by blast
  let ?rest = "if vs = [] then []
        else concat (map (\<lambda>v. ''&key='' @ encodeQuery v) (unique_values [] vs))"
  have qs: "query_string ?u1 = ''start='' @ encodeQuery ?json @ ?rest"
    unfolding query_string_def q by (rule buildQuery_start)
  have b1: "uri_base ?u1 = uri_base (window_location env)"
    unfolding add_user_properties_base by (simp add: set_search_def set_fragment_def)
  have link: "buildShareLink env terria =
      Inr (uri_toString (clear_query (set_fragment (query_string ?u1) ?u1)))"
    using assms by (simp add: buildShareLink_def Let_def)
  have "uri_toString (clear_query (set_fragment (query_string ?u1) ?u1)) =
      uri_base ?u1 @ ''#'' @ query_string ?u1"
    by (rule final_link) (simp_all add: qs)
  then have "uri_toString (clear_query (set_fragment (query_string ?u1) ?u1)) =
      uri_base (window_location env) @ ''#start='' @ encodeQuery ?json @ ?rest"
    unfolding b1 qs by simp
  with link have "buildShareLink env terria =
      Inr (uri_base (window_location env) @ ''#start='' @ encodeQuery ?json @ ?rest)" by simp
  moreover have "?rest = [] \<or> prefix ''&key='' ?rest"
    using key_part_shape [of vs] by auto
  ultimately show ?thesis by blast
qed






text \<open>What \<open>sendFeedback\<close> then does with the string.\<close>

lemma plain_string_has_no_then:
  "\<not> canShorten terria \<Longrightarrow> getShareData env terria = Inr shareData \<Longrightarrow>
     shareLink_posted env True terria = Inl (TypeError ''shareLinkPromise.then is not a function'')"
  using buildShareLink_shape [of env terria shareData]
  by (auto simp: shareLink_posted_def shareLinkPromise_def)

text \<open>
  Claim C5 at a Terria with both white-listed user properties: the full link carries
  them as two parameters named \<open>key\<close>, not as \<open>hideExplorerPanel\<close> and \<open>activeTabId\<close>.
  The short link of a service that answers \<open>abc\<close> has the fragment \<open>share=abc\<close>.
\<close>

theorem user_property_named_key:
  "buildShareLink example_share_env
      ((example_terria [])\<lparr>userProperties :=
          [(''hideExplorerPanel'', ''1''), (''activeTabId'', ''DataCatalogue'')]\<rparr>)
     = Inr ''http://map.example/#start=%7B0.0.05%7D&key=1&key=DataCatalogue''
   \<and> buildShortShareLink example_share_env
      ((example_terria [])\<lparr>shareDataService := Some (example_service True (Resolved ''abc''))\<rparr>)
     = Inr (Resolved ''http://map.example/#share=abc'')"
  by code_simp


end
